theory Spec2Isabelle
  imports Complex_Main
begin

section \<open>Numeric conventions\<close>

text \<open>
  The agents compute on numpy arrays of floats. A finite float is a \<^typ>\<open>real\<close>
  and a one-dimensional array is a list. The discounted returns and the advantage
  estimates are the spec's identities over the reals, and their rounding is not
  modelled. Where the outcome turns on the float arithmetic (the standardization of the
  advantages, the means of the losses) the arithmetic of numpy is a parameter, and the
  non-finite floats are kept apart in \<open>fval\<close>. An array of no dimension (which cannot
  be indexed) is kept apart from a one-dimensional one in \<open>ndarray\<close>, and every
  Python exception the modelled code can raise is a constructor of \<open>error\<close>.
\<close>

datatype error = IndexError | TypeError | ValueError | ZeroDivisionError | UnboundLocalError

datatype fval = Finite real | NaN | PosInf | NegInf

datatype 'a ndarray = Scalar 'a | Array "'a list"

text \<open>\<^verbatim>\<open>xs[start:stop]\<close> for indices that are not negative.\<close>

definition slice :: "nat \<Rightarrow> nat \<Rightarrow> 'a list \<Rightarrow> 'a list" where
  "slice start stop xs = drop start (take stop xs)"

text \<open>Indexing and slicing an array: a 0-d array accepts neither.\<close>

fun getitem :: "'a ndarray \<Rightarrow> nat \<Rightarrow> error + 'a" where
  "getitem (Scalar v) i = Inl IndexError"
| "getitem (Array xs) i = (if i < length xs then Inr (xs ! i) else Inl IndexError)"

fun getslice :: "'a ndarray \<Rightarrow> nat \<Rightarrow> nat \<Rightarrow> error + 'a list" where
  "getslice (Scalar v) start stop = Inl IndexError"
| "getslice (Array xs) start stop = Inr (slice start stop xs)"

text \<open>
  \<^verbatim>\<open>squeeze()\<close> of a column of shape \<open>(N, 1)\<close> drops every axis of length one:
  shape \<open>(N)\<close>, and no axis at all when \<open>N = 1\<close>.
\<close>

definition squeeze :: "'a list \<Rightarrow> 'a ndarray" where
  "squeeze col = (case col of [v] \<Rightarrow> Scalar v | _ \<Rightarrow> Array col)"

text \<open>
  An elementwise numpy operation on two one-dimensional arrays: equal lengths pair up,
  an array of length one is stretched over the other, anything else raises
  \<^verbatim>\<open>ValueError\<close> (operands could not be broadcast together).
\<close>

definition np_binop :: "(real \<Rightarrow> real \<Rightarrow> real) \<Rightarrow> real list \<Rightarrow> real list \<Rightarrow> error + real list" where
  "np_binop f xs ys =
     (if length xs = length ys then Inr (map2 f xs ys)
      else if length xs = 1 then Inr (map (f (hd xs)) ys)
      else if length ys = 1 then Inr (map (\<lambda>x. f x (hd ys)) xs)
      else Inl ValueError)"

text \<open>
  The float arithmetic of numpy that the agents call for: \<^verbatim>\<open>np.mean\<close> and
  \<^verbatim>\<open>np.std\<close> (the population standard deviation) of an array, and the rounding
  of the exact result of one elementwise operation to a float, which may overflow to an
  infinity or underflow to zero. They are numpy's and are taken as given, so whatever is
  proved for every \<open>numerics\<close> holds of float64.
\<close>

record numerics =
  np_mean :: "real list \<Rightarrow> fval"
  np_std :: "real list \<Rightarrow> fval"
  rounded :: "real \<Rightarrow> fval"

text \<open>
  Elementwise subtraction and division of floats. Equal finite operands subtract to an
  exact zero; \<open>nan\<close> propagates; a finite numerator over a zero divisor gives \<open>nan\<close>
  for the numerator zero and the infinity of its sign otherwise, with a warning and no
  exception. The divisor zero is the \<open>+0.0\<close> that \<^verbatim>\<open>np.std\<close> returns.
\<close>

fun np_subtract :: "numerics \<Rightarrow> fval \<Rightarrow> fval \<Rightarrow> fval" where
  "np_subtract nx (Finite a) (Finite b) = (if a = b then Finite 0 else rounded nx (a - b))"
| "np_subtract nx NaN y = NaN"
| "np_subtract nx x NaN = NaN"
| "np_subtract nx PosInf PosInf = NaN"
| "np_subtract nx NegInf NegInf = NaN"
| "np_subtract nx PosInf y = PosInf"
| "np_subtract nx NegInf y = NegInf"
| "np_subtract nx (Finite a) PosInf = NegInf"
| "np_subtract nx (Finite a) NegInf = PosInf"

fun np_divide :: "numerics \<Rightarrow> fval \<Rightarrow> fval \<Rightarrow> fval" where
  "np_divide nx (Finite x) (Finite d) =
     (if d = 0 then (if x = 0 then NaN else if 0 < x then PosInf else NegInf)
      else if x = 0 then Finite 0
      else rounded nx (x / d))"
| "np_divide nx NaN d = NaN"
| "np_divide nx x NaN = NaN"
| "np_divide nx PosInf (Finite d) = (if 0 \<le> d then PosInf else NegInf)"
| "np_divide nx NegInf (Finite d) = (if 0 \<le> d then NegInf else PosInf)"
| "np_divide nx (Finite x) d = Finite 0"
| "np_divide nx x d = NaN"

text \<open>
  \<^verbatim>\<open>np.mean(rows, 0)\<close> of a Python list: the empty list gives the 0-d \<open>nan\<close> (with a
  warning), a list of numbers their mean as a 0-d value, a list of equally long rows the
  array of column means, and rows of different lengths are refused.
\<close>

definition np_mean0_scalars :: "numerics \<Rightarrow> real list \<Rightarrow> fval ndarray" where
  "np_mean0_scalars nx xs = (if xs = [] then Scalar NaN else Scalar (np_mean nx xs))"

definition np_mean0_rows :: "numerics \<Rightarrow> real list list \<Rightarrow> error + fval ndarray" where
  "np_mean0_rows nx rows =
     (case rows of
        [] \<Rightarrow> Inr (Scalar NaN)
      | r # rs \<Rightarrow>
          if \<forall>row \<in> set rs. length row = length r
          then Inr (Array (map (\<lambda>k. np_mean nx (map (\<lambda>row. row ! k) rows)) [0..<length r]))
          else Inl ValueError)"

section \<open>The discounting engine\<close>

text \<open>
  \<^verbatim>\<open>scipy.signal.lfilter(b, a, x)\<close> is the direct-form difference equation
  \<^verbatim>\<open>a[0]*y[n] = b[0]*x[n] + ... + b[M]*x[n-M] - a[1]*y[n-1] - ... - a[N]*y[n-N]\<close>
  started from rest. \<open>lfilter_from\<close> carries the inputs and outputs seen so far,
  most recent first.
\<close>

fun dot :: "real list \<Rightarrow> real list \<Rightarrow> real" where
  "dot (c # cs) (v # vs) = c * v + dot cs vs"
| "dot _ _ = 0"

fun lfilter_from :: "real list \<Rightarrow> real list \<Rightarrow> real list \<Rightarrow> real list \<Rightarrow> real list \<Rightarrow> real list" where
  "lfilter_from b a xpast ypast [] = []"
| "lfilter_from b a xpast ypast (x # xs) =
     (let y = (dot b (x # xpast) - dot (tl a) ypast) / hd a
      in y # lfilter_from b a (x # xpast) (y # ypast) xs)"

definition lfilter :: "real list \<Rightarrow> real list \<Rightarrow> real list \<Rightarrow> real list" where
  "lfilter b a x = lfilter_from b a [] [] x"

text \<open>
  \<^verbatim>\<open>def discount(self, x, gamma):
      return scipy.signal.lfilter([1], [1, -gamma], x[::-1], axis=0)[::-1]\<close>
\<close>

definition discount :: "real list \<Rightarrow> real \<Rightarrow> real list" where
  "discount x gamma = rev (lfilter [1] [1, - gamma] (rev x))"

section \<open>Generalized advantage estimation\<close>

text \<open>
  \<open>PolicyGradientRescaler\<close> is declared in \<^verbatim>\<open>agents/policy_optimization_agent.py\<close>,
  which is not among the sources; the agents compare it with three of its members only,
  and every other member takes their \<^verbatim>\<open>else\<close> branch.
\<close>

datatype PolicyGradientRescaler = A_VALUE | CUSTOM_ACTOR_CRITIC | GAE | OTHER_RESCALER

text \<open>The fields of \<^verbatim>\<open>self.ap.algorithm\<close> that the estimators read
  (\<open>ap_discount\<close> is \<^verbatim>\<open>self.ap.algorithm.discount\<close>).\<close>

record algorithm =
  policy_gradient_rescaler :: PolicyGradientRescaler
  ap_discount :: real
  gae_lambda :: real
  estimate_state_value_using_gae :: bool

text \<open>
  \<^verbatim>\<open>def get_general_advantage_estimation_values(self, rewards, values):
      bootstrap_extended_rewards = np.array(rewards.tolist() + [values[-1]])
      deltas = rewards + self.ap.algorithm.discount * values[1:] - values[:-1]
      gae = self.discount(deltas, self.ap.algorithm.discount * self.ap.algorithm.gae_lambda)
      if self.ap.algorithm.estimate_state_value_using_gae:
          discounted_returns = np.expand_dims(gae + values[:-1], -1)
      else:
          discounted_returns = np.expand_dims(np.array(self.discount(bootstrap_extended_rewards,
                                                                     self.ap.algorithm.discount)), 1)[:-1]
      return gae, discounted_returns\<close>
  The added axis of \<open>discounted_returns\<close> is not kept: both callers flatten it or
  feed it on as a column.
\<close>

definition get_general_advantage_estimation_values ::
  "algorithm \<Rightarrow> real list \<Rightarrow> real list \<Rightarrow> error + (real list \<times> real list)" where
  "get_general_advantage_estimation_values ap rewards values =
     (if values = [] then Inl IndexError
      else
        let bootstrap_extended_rewards = rewards @ [last values] in
        case np_binop (+) rewards (map (\<lambda>v. ap_discount ap * v) (tl values)) of
          Inl e \<Rightarrow> Inl e
        | Inr s \<Rightarrow>
            (case np_binop (-) s (butlast values) of
               Inl e \<Rightarrow> Inl e
             | Inr deltas \<Rightarrow>
                 let gae = discount deltas (ap_discount ap * gae_lambda ap) in
                 if estimate_state_value_using_gae ap then
                   (case np_binop (+) gae (butlast values) of
                      Inl e \<Rightarrow> Inl e
                    | Inr discounted_returns \<Rightarrow> Inr (gae, discounted_returns))
                 else
                   Inr (gae, butlast (discount bootstrap_extended_rewards (ap_discount ap)))))"

section \<open>Transitions, batches and the agent\<close>

text \<open>
  A transition as the agents read it through \<^verbatim>\<open>Batch\<close>: \<^verbatim>\<open>batch.states\<close>,
  \<^verbatim>\<open>batch.rewards()\<close>, \<^verbatim>\<open>batch.next_states\<close>, \<^verbatim>\<open>batch.game_overs()\<close> and
  \<^verbatim>\<open>batch.total_returns()\<close> are the columns of the list of transitions, and
  \<open>info\<close> is the dictionary \<^verbatim>\<open>transition.info\<close>.
\<close>

record 's transition =
  state :: 's
  reward :: real
  next_state :: 's
  game_over :: bool
  total_return :: real
  info :: "string \<rightharpoonup> fval"

text \<open>
  What the agent consults: its algorithm parameters, the value head of
  \<^verbatim>\<open>self.networks['main'].online_network.predict\<close> (one value per state of the batch),
  and for the custom critic the action values of \<^verbatim>\<open>self.parent.agents['critic']\<close> and
  the action probabilities of the policy head.
\<close>

record 's agent =
  algorithm_parameters :: algorithm
  value_head :: "'s \<Rightarrow> real"
  critic_q_values :: "'s \<Rightarrow> real list"
  policy_probs :: "'s \<Rightarrow> real list"

text \<open>
  \<^verbatim>\<open>def get_value_for_states(self, states):
      q_values = self.parent.agents['critic'].get_predictions(states=states, prediction_type=QActionStateValue)
      probs = self.networks['main'].online_network.predict(states)[1]
      return np.sum(q_values * probs, axis=1)\<close>
\<close>

definition get_value_for_states :: "'s agent \<Rightarrow> 's list \<Rightarrow> real list" where
  "get_value_for_states ag states =
     map (\<lambda>s. sum_list (map2 (*) (critic_q_values ag s) (policy_probs ag s))) states"

section \<open>Actor-critic: learn_from_batch\<close>

text \<open>
  The backward loop of the \<open>A_VALUE\<close> and \<open>CUSTOM_ACTOR_CRITIC\<close> branches, over the
  indices it is given, on the running return and the two target arrays:
  \<^verbatim>\<open>for i in reversed(range(num_transitions)):
      R = batch.rewards()[i] + self.ap.algorithm.discount * R
      state_value_head_targets[i] = R
      action_advantages[i] = R - current_state_values[i]\<close>
\<close>

fun returns_loop ::
  "real \<Rightarrow> real list \<Rightarrow> real list \<Rightarrow> nat list \<Rightarrow> real \<times> real list \<times> real list
     \<Rightarrow> real \<times> real list \<times> real list" where
  "returns_loop g rewards current_state_values [] s = s"
| "returns_loop g rewards current_state_values (i # is) (R, state_value_head_targets, action_advantages) =
     (let R' = rewards ! i + g * R
      in returns_loop g rewards current_state_values is
           (R', state_value_head_targets[i := R'],
            action_advantages[i := R' - current_state_values ! i]))"

text \<open>
  \<open>learn_from_batch\<close> up to the pair \<open>(state_value_head_targets, action_advantages)\<close>
  that it hands to \<^verbatim>\<open>accumulate_gradients\<close>. On an empty batch \<^verbatim>\<open>batch.game_overs()[-1]\<close>
  and \<^verbatim>\<open>last_sample\<close> have no last element to read.
\<close>

definition learn_from_batch :: "'s agent \<Rightarrow> 's transition list \<Rightarrow> error + (real list \<times> real list)" where
  "learn_from_batch ag batch =
     (let ap = algorithm_parameters ag;
          rescaler = policy_gradient_rescaler ap;
          current_state_values =
            (if rescaler \<noteq> CUSTOM_ACTOR_CRITIC then map (value_head ag) (map state batch)
             else get_value_for_states ag (map state batch));
          num_transitions = length batch;
          zeros = replicate num_transitions 0
      in
      if rescaler = A_VALUE then
        (if batch = [] then Inl IndexError
         else
           let R = (if game_over (last batch) then 0 else value_head ag (next_state (last batch)));
               (R', state_value_head_targets, action_advantages) =
                  returns_loop (ap_discount ap) (map reward batch) current_state_values
                    (rev [0..<num_transitions]) (R, zeros, zeros)
           in Inr (state_value_head_targets, action_advantages))
      else if rescaler = CUSTOM_ACTOR_CRITIC then
        (if batch = [] then Inl IndexError
         else
           let R = (if game_over (last batch) then 0
                    else hd (get_value_for_states ag [next_state (last batch)]));
               (R', state_value_head_targets, action_advantages) =
                  returns_loop (ap_discount ap) (map reward batch) current_state_values
                    (rev [0..<num_transitions]) (R, zeros, zeros)
           in Inr (state_value_head_targets, action_advantages))
      else if rescaler = GAE then
        (if batch = [] then Inl IndexError
         else
           let bootstrapped_value = value_head ag (next_state (last batch));
               values = current_state_values @ [bootstrapped_value];
               values = (if game_over (last batch) then values[length values - 1 := 0] else values)
           in case get_general_advantage_estimation_values ap (map reward batch) values of
                Inl e \<Rightarrow> Inl e
              | Inr (gae_values, state_value_head_targets) \<Rightarrow>
                  Inr (state_value_head_targets, gae_values))
      else Inr (zeros, zeros))"

section \<open>Clipped PPO: fill_advantages\<close>

text \<open>
  The loop over \<^verbatim>\<open>enumerate(batch.game_overs())\<close>, on the state
  \<open>(episode_start_idx, advantages, value_targets)\<close>:
  \<^verbatim>\<open>if game_over:
      value_bootstrapping = np.zeros((1,))
      rollout_state_values = np.append(current_state_values[episode_start_idx:idx+1], value_bootstrapping)
      rollout_advantages, gae_based_value_targets = \
          self.get_general_advantage_estimation_values(batch.rewards()[episode_start_idx:idx+1],
                                                       rollout_state_values)
      episode_start_idx = idx + 1
      advantages = np.append(advantages, rollout_advantages)
      value_targets = np.append(value_targets, gae_based_value_targets)\<close>
\<close>

fun rollouts_loop ::
  "algorithm \<Rightarrow> real ndarray \<Rightarrow> real list \<Rightarrow> (nat \<times> bool) list \<Rightarrow> nat \<times> real list \<times> real list
     \<Rightarrow> error + (nat \<times> real list \<times> real list)" where
  "rollouts_loop ap current_state_values rewards [] s = Inr s"
| "rollouts_loop ap current_state_values rewards ((idx, game_over') # rest)
       (episode_start_idx, advantages, value_targets) =
     (if game_over' then
        (case getslice current_state_values episode_start_idx (idx + 1) of
           Inl e \<Rightarrow> Inl e
         | Inr vs \<Rightarrow>
             let value_bootstrapping = [0];
                 rollout_state_values = vs @ value_bootstrapping
             in case get_general_advantage_estimation_values ap
                       (slice episode_start_idx (idx + 1) rewards) rollout_state_values of
                  Inl e \<Rightarrow> Inl e
                | Inr (rollout_advantages, gae_based_value_targets) \<Rightarrow>
                    rollouts_loop ap current_state_values rewards rest
                      (idx + 1, advantages @ rollout_advantages,
                       value_targets @ gae_based_value_targets))
      else rollouts_loop ap current_state_values rewards rest
             (episode_start_idx, advantages, value_targets))"

definition enumerate_from0 :: "'a list \<Rightarrow> (nat \<times> 'a) list" where
  "enumerate_from0 xs = zip [0..<length xs] xs"

text \<open>
  The advantages and value targets before standardization. The squeezed value column of
  a batch of one transition has no axis left: \<open>A_VALUE\<close> still subtracts it from the one
  return, the slice of the \<open>GAE\<close> branch is refused.
\<close>

definition raw_advantages :: "'s agent \<Rightarrow> 's transition list \<Rightarrow> error + (real list \<times> real list)" where
  "raw_advantages ag batch =
     (let ap = algorithm_parameters ag;
          current_state_values = squeeze (map (value_head ag) (map state batch))
      in
      if policy_gradient_rescaler ap = A_VALUE then
        (case current_state_values of
           Scalar v \<Rightarrow> Inr (map (\<lambda>R. R - v) (map total_return batch), [])
         | Array vs \<Rightarrow>
             (case np_binop (-) (map total_return batch) vs of
                Inl e \<Rightarrow> Inl e
              | Inr advantages \<Rightarrow> Inr (advantages, [])))
      else if policy_gradient_rescaler ap = GAE then
        (case rollouts_loop ap current_state_values (map reward batch)
                (enumerate_from0 (map game_over batch)) (0, [], []) of
           Inl e \<Rightarrow> Inl e
         | Inr (episode_start_idx, advantages, value_targets) \<Rightarrow> Inr (advantages, value_targets))
      else Inr ([], []))"

text \<open>
  \<^verbatim>\<open>advantages = (advantages - np.mean(advantages)) / np.std(advantages)\<close>: the mean
  is subtracted from every entry and the difference divided by the deviation, with no
  test of the divisor. On the empty array the result is the empty array.
\<close>

definition standardize :: "numerics \<Rightarrow> real list \<Rightarrow> fval list" where
  "standardize nx advantages =
     map (\<lambda>a. np_divide nx (np_subtract nx (Finite a) (np_mean nx advantages))
                (np_std nx advantages)) advantages"

text \<open>
  \<^verbatim>\<open>for transition, advantage, value_target in zip(batch.transitions, advantages, value_targets):
      transition.info['advantage'] = advantage
      transition.info['gae_based_value_target'] = value_target\<close>
  The \<^verbatim>\<open>zip\<close> stops with its shortest argument.
\<close>

fun write_info :: "'s transition list \<Rightarrow> fval list \<Rightarrow> real list \<Rightarrow> 's transition list" where
  "write_info (transition # ts) (advantage # as) (value_target # vs) =
     transition\<lparr>info := (info transition)(''advantage'' \<mapsto> advantage,
                                            ''gae_based_value_target'' \<mapsto> Finite value_target)\<rparr>
       # write_info ts as vs"
| "write_info ts _ _ = ts"

text \<open>\<open>fill_advantages\<close> returns the batch with the entries written and the sample it
  adds to the \<open>Advantages\<close> signal.\<close>

definition fill_advantages ::
  "numerics \<Rightarrow> 's agent \<Rightarrow> 's transition list \<Rightarrow> error + ('s transition list \<times> fval list)" where
  "fill_advantages nx ag batch =
     (case raw_advantages ag batch of
        Inl e \<Rightarrow> Inl e
      | Inr (advantages, value_targets) \<Rightarrow>
          let advantages = standardize nx advantages
          in Inr (write_info batch advantages value_targets, advantages))"

section \<open>Clipped PPO: train_network\<close>

text \<open>
  One call of \<^verbatim>\<open>self.networks['main'].train_and_sync_networks\<close> returns
  \<open>(total_loss, policy_losses, unclipped_grads, fetch_result)\<close>; the two fetches are
  the KL divergence and the entropy. The dictionary \<^verbatim>\<open>loss\<close> holds one list per
  key while the minibatches run, and the \<^verbatim>\<open>np.mean(loss[key], 0)\<close> of each
  afterwards.
\<close>

record step_result =
  total_loss :: real
  policy_losses :: "real list"
  unclipped_grads :: real
  fetch_result :: "real list"

record loss_lists =
  total_loss_list :: "real list"
  policy_losses_list :: "real list list"
  unclipped_grads_list :: "real list"
  fetch_result_list :: "real list list"

record loss_means =
  total_loss_mean :: "fval ndarray"
  policy_losses_mean :: "fval ndarray"
  unclipped_grads_mean :: "fval ndarray"
  fetch_result_mean :: "fval ndarray"

definition empty_loss :: loss_lists where
  "empty_loss = \<lparr>total_loss_list = [], policy_losses_list = [],
                  unclipped_grads_list = [], fetch_result_list = []\<rparr>"

text \<open>
  The minibatch loop of one epoch, over the indices it is given. Everything a gradient
  step reads of the batch (actions, states, advantages and value targets) is read at
  \<^verbatim>\<open>[start:end]\<close>, so the step is a function of the network and of that slice of the
  transitions; it returns the updated network with its losses. The loop threads the
  network, the lists of \<^verbatim>\<open>loss\<close> and the local variable \<^verbatim>\<open>policy_losses\<close>
  (unbound until the first step):
  \<^verbatim>\<open>for i in range(int(batch.size / self.ap.network_wrappers['main'].batch_size)):
      start = i * self.ap.network_wrappers['main'].batch_size
      end = (i + 1) * self.ap.network_wrappers['main'].batch_size
      ...
      total_loss, policy_losses, unclipped_grads, fetch_result = \
          self.networks['main'].train_and_sync_networks(...)
      loss['total_loss'].append(total_loss)
      loss['policy_losses'].append(policy_losses)
      loss['unclipped_grads'].append(unclipped_grads)
      loss['fetch_result'].append(fetch_result)\<close>
\<close>

fun minibatch_loop ::
  "('n \<Rightarrow> 't list \<Rightarrow> 'n \<times> step_result) \<Rightarrow> nat \<Rightarrow> 't list \<Rightarrow> nat list
     \<Rightarrow> 'n \<times> loss_lists \<times> real list option \<Rightarrow> 'n \<times> loss_lists \<times> real list option" where
  "minibatch_loop train_and_sync_networks batch_size batch [] s = s"
| "minibatch_loop train_and_sync_networks batch_size batch (i # is) (net, loss, last_policy_losses) =
     (let start = i * batch_size;
          end' = (i + 1) * batch_size;
          (net', r) = train_and_sync_networks net (slice start end' batch)
      in minibatch_loop train_and_sync_networks batch_size batch is
           (net',
            loss\<lparr>total_loss_list := total_loss_list loss @ [total_loss r],
                 policy_losses_list := policy_losses_list loss @ [policy_losses r],
                 unclipped_grads_list := unclipped_grads_list loss @ [unclipped_grads r],
                 fetch_result_list := fetch_result_list loss @ [fetch_result r]\<rparr>,
            Some (policy_losses r)))"

text \<open>
  The rest of an epoch after \<^verbatim>\<open>batch.shuffle()\<close>: the minibatch loop over
  \<^verbatim>\<open>range(int(batch.size / batch_size))\<close>, the means of the four lists, and the
  reads of \<^verbatim>\<open>loss['policy_losses'][0]\<close>, \<^verbatim>\<open>loss['fetch_result'][0]\<close> and
  \<^verbatim>\<open>loss['fetch_result'][1]\<close> for the log. The quotient \<^verbatim>\<open>int(B / M)\<close> goes through
  a float and is \<open>B div M\<close> for every batch that fits in memory; a minibatch size of
  zero divides by zero. The epoch returns the network and \<^verbatim>\<open>policy_losses\<close> as it
  leaves them, with the means or the exception raised.
\<close>

definition train_epoch ::
  "numerics \<Rightarrow> ('n \<Rightarrow> 't list \<Rightarrow> 'n \<times> step_result) \<Rightarrow> nat \<Rightarrow> 't list \<Rightarrow> 'n \<times> real list option
     \<Rightarrow> ('n \<times> real list option) \<times> (error + loss_means)" where
  "train_epoch nx train_and_sync_networks batch_size batch s =
     (if batch_size = 0 then (s, Inl ZeroDivisionError)
      else
        let (net, last_policy_losses) = s;
            (net', loss, last_policy_losses') =
               minibatch_loop train_and_sync_networks batch_size batch
                 [0..<length batch div batch_size] (net, empty_loss, last_policy_losses)
        in ((net', last_policy_losses'),
            case np_mean0_rows nx (policy_losses_list loss) of
              Inl e \<Rightarrow> Inl e
            | Inr policy_mean \<Rightarrow>
                (case np_mean0_rows nx (fetch_result_list loss) of
                   Inl e \<Rightarrow> Inl e
                 | Inr fetch_mean \<Rightarrow>
                     (case getitem policy_mean 0 of
                        Inl e \<Rightarrow> Inl e
                      | Inr surrogate_loss \<Rightarrow>
                          (case getitem fetch_mean 0 of
                             Inl e \<Rightarrow> Inl e
                           | Inr kl_divergence \<Rightarrow>
                               (case getitem fetch_mean 1 of
                                  Inl e \<Rightarrow> Inl e
                                | Inr entropy \<Rightarrow>
                                    Inr \<lparr>total_loss_mean = np_mean0_scalars nx (total_loss_list loss),
                                         policy_losses_mean = policy_mean,
                                         unclipped_grads_mean = np_mean0_scalars nx (unclipped_grads_list loss),
                                         fetch_result_mean = fetch_mean\<rparr>))))))"

text \<open>
  The loop over the epochs. \<open>shuffle j\<close> is the reordering that the call of
  \<^verbatim>\<open>batch.shuffle()\<close> in epoch \<open>j\<close> performs. The variable \<^verbatim>\<open>loss\<close> is the list
  \<^verbatim>\<open>[]\<close> until an epoch has replaced it (\<open>None\<close> here).
\<close>

fun epochs_loop ::
  "numerics \<Rightarrow> (nat \<Rightarrow> 't list \<Rightarrow> 't list) \<Rightarrow> ('n \<Rightarrow> 't list \<Rightarrow> 'n \<times> step_result) \<Rightarrow> nat \<Rightarrow> nat list
     \<Rightarrow> 't list \<times> 'n \<times> real list option \<times> loss_means option
     \<Rightarrow> ('t list \<times> 'n \<times> real list option) \<times> (error + loss_means option)" where
  "epochs_loop nx shuffle train_and_sync_networks batch_size [] (batch, net, last_policy_losses, loss) =
     ((batch, net, last_policy_losses), Inr loss)"
| "epochs_loop nx shuffle train_and_sync_networks batch_size (j # js) (batch, net, last_policy_losses, loss) =
     (let batch' = shuffle j batch
      in case train_epoch nx train_and_sync_networks batch_size batch' (net, last_policy_losses) of
           ((net', last_policy_losses'), Inl e) \<Rightarrow> ((batch', net', last_policy_losses'), Inl e)
         | ((net', last_policy_losses'), Inr means) \<Rightarrow>
             epochs_loop nx shuffle train_and_sync_networks batch_size js
               (batch', net', last_policy_losses', Some means))"

text \<open>
  \<open>train_network\<close>: the epochs, then
  \<^verbatim>\<open>self.total_kl_divergence_during_training_process = loss['fetch_result'][0]
  self.entropy.add_sample(loss['fetch_result'][1])
  self.kl_divergence.add_sample(loss['fetch_result'][0])
  return policy_losses\<close>
  It returns the batch in its last order and the network, with the returned losses or
  the exception raised. With no epoch at all \<^verbatim>\<open>loss\<close> is still a list, which a
  string does not index.
\<close>

definition train_network ::
  "numerics \<Rightarrow> (nat \<Rightarrow> 't list \<Rightarrow> 't list) \<Rightarrow> ('n \<Rightarrow> 't list \<Rightarrow> 'n \<times> step_result) \<Rightarrow> nat \<Rightarrow> 't list \<Rightarrow> nat \<Rightarrow> 'n
     \<Rightarrow> ('t list \<times> 'n) \<times> (error + real list)" where
  "train_network nx shuffle train_and_sync_networks batch_size batch epochs net =
     (case epochs_loop nx shuffle train_and_sync_networks batch_size [0..<epochs] (batch, net, None, None) of
        ((batch', net', last_policy_losses), Inl e) \<Rightarrow> ((batch', net'), Inl e)
      | ((batch', net', last_policy_losses), Inr None) \<Rightarrow> ((batch', net'), Inl TypeError)
      | ((batch', net', last_policy_losses), Inr (Some loss)) \<Rightarrow>
          ((batch', net'),
           case getitem (fetch_result_mean loss) 0 of
             Inl e \<Rightarrow> Inl e
           | Inr total_kl_divergence \<Rightarrow>
               (case getitem (fetch_result_mean loss) 1 of
                  Inl e \<Rightarrow> Inl e
                | Inr entropy \<Rightarrow>
                    (case last_policy_losses of
                       None \<Rightarrow> Inl UnboundLocalError
                     | Some policy_losses' \<Rightarrow> Inr policy_losses'))))"

section \<open>Specification-level functions\<close>

text \<open>The two readings of the discounting contract: the forward scan that the filter
  performs on the reversed input, and the backward recurrence
  \<open>y[t] = x[t] + gamma * y[t+1]\<close> with \<open>y = 0\<close> beyond the end.\<close>

fun fscan :: "real \<Rightarrow> real \<Rightarrow> real list \<Rightarrow> real list" where
  "fscan g y [] = []"
| "fscan g y (x # xs) = (x + g * y) # fscan g (x + g * y) xs"

fun hd0 :: "real list \<Rightarrow> real" where
  "hd0 [] = 0"
| "hd0 (y # ys) = y"

fun bscan :: "real \<Rightarrow> real list \<Rightarrow> real list" where
  "bscan g [] = []"
| "bscan g (x # xs) = (x + g * hd0 (bscan g xs)) # bscan g xs"

text \<open>The TD residuals of a window, index by index.\<close>

definition td_residuals :: "real \<Rightarrow> real list \<Rightarrow> real list \<Rightarrow> real list" where
  "td_residuals g rewards values =
     map (\<lambda>i. rewards ! i + g * values ! Suc i - values ! i) [0..<length rewards]"

text \<open>The minibatches of an epoch, as the spec describes them: \<open>B div M\<close> slices
  \<open>[i*M, (i+1)*M)\<close> of the batch in its current order.\<close>

definition minibatches :: "nat \<Rightarrow> 't list \<Rightarrow> 't list list" where
  "minibatches M batch = map (\<lambda>i. slice (i * M) ((i + 1) * M) batch) [0..<length batch div M]"

text \<open>What the backward loop of \<open>learn_from_batch\<close> has established once it has
  walked the indices \<open>n - 1\<close> down to \<open>k\<close>, from the bootstrap \<open>R0\<close>.\<close>

definition returns_inv ::
  "real \<Rightarrow> real list \<Rightarrow> real list \<Rightarrow> real \<Rightarrow> nat \<Rightarrow> nat \<Rightarrow> real \<times> real list \<times> real list \<Rightarrow> bool" where
  "returns_inv g rewards V R0 n k s =
     (case s of (R, targets, advantages) \<Rightarrow>
        length targets = n \<and> length advantages = n \<and>
        R = (if k < n then targets ! k else R0) \<and>
        (\<forall>i. k \<le> i \<and> i < n \<longrightarrow>
           targets ! i = rewards ! i + g * (if Suc i < n then targets ! Suc i else R0) \<and>
           advantages ! i = targets ! i - V ! i))"

text \<open>Concrete inputs on which the theorems below are exercised: states are numbers
  and the network predicts the number itself.\<close>

definition demo_agent :: "PolicyGradientRescaler \<Rightarrow> bool \<Rightarrow> nat agent" where
  "demo_agent m b =
     \<lparr>algorithm_parameters =
        \<lparr>policy_gradient_rescaler = m, ap_discount = 1 / 2, gae_lambda = 1,
         estimate_state_value_using_gae = b\<rparr>,
      value_head = (\<lambda>s. real s), critic_q_values = (\<lambda>s. [real s, 1]),
      policy_probs = (\<lambda>s. [1 / 2, 1 / 2])\<rparr>"

definition demo_transition :: "nat \<Rightarrow> real \<Rightarrow> bool \<Rightarrow> nat transition" where
  "demo_transition s r g =
     \<lparr>state = s, reward = r, next_state = Suc s, game_over = g, total_return = 0,
      info = Map.empty\<rparr>"

text \<open>A network that only records the minibatches it is trained on, with two head
  losses and two fetches per step.\<close>

definition recording_step :: "nat list list \<Rightarrow> nat list \<Rightarrow> nat list list \<times> step_result" where
  "recording_step net mb =
     (net @ [mb],
      \<lparr>total_loss = 1, policy_losses = [real (length mb), 0], unclipped_grads = 0,
       fetch_result = [0, 1]\<rparr>)"

text \<open>
  The estimation windows of a batch, read off the flags alone: a window closes at every
  transition with \<open>game_over\<close> set, and the transitions after the last such flag are
  in no window. \<open>acc\<close> is the run collected since the last flag.
\<close>

fun episode_windows :: "'s transition list \<Rightarrow> 's transition list \<Rightarrow> 's transition list list" where
  "episode_windows acc [] = []"
| "episode_windows acc (t # ts) =
     (if game_over t then (acc @ [t]) # episode_windows [] ts
      else episode_windows (acc @ [t]) ts)"

text \<open>The estimator on one window by itself, with the bootstrap value \<open>0\<close> after its
  last transition.\<close>

definition window_estimates :: "'s agent \<Rightarrow> 's transition list \<Rightarrow> real list \<times> real list" where
  "window_estimates ag w =
     (case get_general_advantage_estimation_values (algorithm_parameters ag)
             (map reward w) (map (value_head ag) (map state w) @ [0]) of
        Inr estimates \<Rightarrow> estimates
      | Inl e \<Rightarrow> ([], []))"

text \<open>A complete episode: a non-empty run whose last transition, and no other, has
  \<open>game_over\<close> set.\<close>

definition complete_episode :: "'s transition list \<Rightarrow> bool" where
  "complete_episode e =
     (e \<noteq> [] \<and> game_over (last e) \<and> (\<forall>t \<in> set (butlast e). \<not> game_over t))"

text \<open>The number of transitions that lie in some window, and the advantage entries
  found in a batch.\<close>

definition windowed :: "'s transition list \<Rightarrow> nat" where
  "windowed batch = length (concat (episode_windows [] batch))"

definition written_advantages :: "'s transition list \<Rightarrow> fval option list" where
  "written_advantages batch = map (\<lambda>t. info t ''advantage'') batch"

text \<open>
  What the epochs of \<open>train_network\<close> amount to when nothing fails: every epoch
  reorders the batch and takes one gradient step per minibatch, in order; the losses
  returned are those of the last step taken.
\<close>

definition run_minibatches ::
  "('n \<Rightarrow> 't list \<Rightarrow> 'n \<times> step_result) \<Rightarrow> 'n \<times> real list option \<Rightarrow> 't list list
     \<Rightarrow> 'n \<times> real list option" where
  "run_minibatches step s mbs =
     foldl (\<lambda>(net, last) mb. (fst (step net mb), Some (policy_losses (snd (step net mb))))) s mbs"

fun run_epochs ::
  "(nat \<Rightarrow> 't list \<Rightarrow> 't list) \<Rightarrow> ('n \<Rightarrow> 't list \<Rightarrow> 'n \<times> step_result) \<Rightarrow> nat \<Rightarrow> nat list
     \<Rightarrow> 't list \<times> 'n \<times> real list option \<Rightarrow> 't list \<times> 'n \<times> real list option" where
  "run_epochs shuffle step M [] s = s"
| "run_epochs shuffle step M (j # js) (batch, s) =
     run_epochs shuffle step M js
       (shuffle j batch, run_minibatches step s (minibatches M (shuffle j batch)))"

text \<open>
  Arithmetic in which no operation rounds: the mean and the population deviation as
  real numbers. It is what numpy computes on the inputs where every intermediate value
  is a float, such as the arrays \<open>[1, 1]\<close> and \<open>[1, 3]\<close> on which the model is
  evaluated below, and not in general.
\<close>

definition exact_mean :: "real list \<Rightarrow> real" where
  "exact_mean xs = sum_list xs / real (length xs)"

definition exact_std :: "real list \<Rightarrow> real" where
  "exact_std xs = sqrt (exact_mean (map (\<lambda>x. (x - exact_mean xs)\<^sup>2) xs))"

definition exact_numerics :: numerics where
  "exact_numerics =
     \<lparr>np_mean = (\<lambda>xs. if xs = [] then NaN else Finite (exact_mean xs)),
      np_std = (\<lambda>xs. if xs = [] then NaN else Finite (exact_std xs)),
      rounded = Finite\<rparr>"

text \<open>An array all of whose entries are equal, and a float that is not finite.\<close>

definition constant_array :: "real list \<Rightarrow> bool" where
  "constant_array xs = (\<forall>a \<in> set xs. a = hd xs)"

fun non_finite :: "fval \<Rightarrow> bool" where
  "non_finite (Finite x) = False"
| "non_finite v = True"

section \<open>Discounting: the contract of discount\<close>

lemma lfilter_from_fscan:
  "lfilter_from [1] [1, - g] xp (y # yp) xs = fscan g y xs"
  by (induction xs arbitrary: xp y yp) (simp_all add: Let_def)

lemma lfilter_fscan: "lfilter [1] [1, - g] xs = fscan g 0 xs"
  by (cases xs) (simp_all add: lfilter_def Let_def lfilter_from_fscan)

lemma length_fscan [simp]: "length (fscan g y xs) = length xs"
  by (induction xs arbitrary: y) simp_all

lemma length_bscan [simp]: "length (bscan g xs) = length xs"
  by (induction xs) simp_all

lemma fscan_snoc:
  "fscan g y (xs @ [x]) = fscan g y xs @ [x + g * last (y # fscan g y xs)]"
  by (induction xs arbitrary: y) simp_all

lemma last_hd0_rev: "last (0 # ys) = hd0 (rev ys)"
  by (induction ys rule: rev_induct) simp_all

lemma rev_fscan_rev: "rev (fscan g 0 (rev xs)) = bscan g xs"
proof (induction xs)
  case Nil
  show ?case by simp
next
  case (Cons x xs)
  have "rev (fscan g 0 (rev (x # xs)))
      = (x + g * last (0 # fscan g 0 (rev xs))) # rev (fscan g 0 (rev xs))"
    by (simp add: fscan_snoc)
  also have "last (0 # fscan g 0 (rev xs)) = hd0 (rev (fscan g 0 (rev xs)))"
    by (rule last_hd0_rev)
  finally show ?case using Cons.IH by simp
qed

lemma discount_bscan: "discount x g = bscan g x"
  by (simp add: discount_def lfilter_fscan rev_fscan_rev)

lemma length_discount [simp]: "length (discount x g) = length x"
  by (simp add: discount_bscan)

lemma hd0_bscan_sum: "hd0 (bscan g xs) = (\<Sum>k<length xs. g ^ k * xs ! k)"
proof (induction xs)
  case Nil
  show ?case by simp
next
  case (Cons x xs)
  have "(\<Sum>k<length (x # xs). g ^ k * (x # xs) ! k)
      = x + (\<Sum>k<length xs. g ^ Suc k * xs ! k)"
    by (simp add: sum.lessThan_Suc_shift del: sum.lessThan_Suc)
  also have "(\<Sum>k<length xs. g ^ Suc k * xs ! k) = g * (\<Sum>k<length xs. g ^ k * xs ! k)"
    by (simp add: sum_distrib_left mult.assoc)
  finally show ?case using Cons.IH by simp
qed

lemma bscan_drop: "drop t (bscan g xs) = bscan g (drop t xs)"
proof (induction xs arbitrary: t)
  case Nil
  show ?case by simp
next
  case (Cons x xs)
  show ?case by (cases t) (simp_all add: Cons.IH)
qed

lemma hd0_drop: "t < length ys \<Longrightarrow> hd0 (drop t ys) = ys ! t"
  by (induction ys arbitrary: t) (auto simp: less_Suc_eq_0_disj)

lemma bscan_nth_sum:
  assumes "t < length xs"
  shows "bscan g xs ! t = (\<Sum>k<length xs - t. g ^ k * xs ! (t + k))"
proof -
  have "bscan g xs ! t = hd0 (drop t (bscan g xs))"
    using assms by (simp add: hd0_drop)
  also have "\<dots> = hd0 (bscan g (drop t xs))"
    by (simp add: bscan_drop)
  also have "\<dots> = (\<Sum>k<length (drop t xs). g ^ k * drop t xs ! k)"
    by (rule hd0_bscan_sum)
  also have "\<dots> = (\<Sum>k<length xs - t. g ^ k * xs ! (t + k))"
    using assms by (intro sum.cong) simp_all
  finally show ?thesis .
qed

lemma bscan_nth_rec:
  assumes "t < length xs"
  shows "bscan g xs ! t = xs ! t + g * hd0 (drop (Suc t) (bscan g xs))"
proof -
  have d: "drop t xs = xs ! t # drop (Suc t) xs"
    using assms by (simp add: Cons_nth_drop_Suc)
  have "bscan g xs ! t = hd0 (bscan g (drop t xs))"
    using assms by (simp add: hd0_drop flip: bscan_drop)
  also have "\<dots> = xs ! t + g * hd0 (bscan g (drop (Suc t) xs))"
    by (simp add: d)
  finally show ?thesis by (simp add: bscan_drop)
qed

lemma bscan_nth_step:
  assumes "t < length xs"
  shows "bscan g xs ! t = xs ! t + g * (if Suc t < length xs then bscan g xs ! Suc t else 0)"
  using assms by (simp add: bscan_nth_rec hd0_drop)

lemma hd0_replicate_zero: "hd0 (replicate n 0) = 0"
  by (cases n) simp_all

lemma bscan_zero: "bscan g (replicate n 0) = replicate n 0"
  by (induction n) (simp_all add: hd0_replicate_zero)

lemma bscan_gamma0: "bscan 0 xs = xs"
  by (induction xs) simp_all

lemma bscan_const:
  assumes "g \<noteq> 1" "t < n"
  shows "bscan g (replicate n c) ! t = c * (1 - g ^ (n - t)) / (1 - g)"
proof -
  have "bscan g (replicate n c) ! t = (\<Sum>k<n - t. g ^ k * c)"
    using assms by (simp add: bscan_nth_sum)
  also have "\<dots> = c * (\<Sum>k<n - t. g ^ k)"
    by (simp add: sum_distrib_left mult.commute)
  also have "(\<Sum>k<n - t. g ^ k) = (1 - g ^ (n - t)) / (1 - g)"
    using assms by (simp add: sum_gp_strict)
  finally show ?thesis by simp
qed

text \<open>
  C1. \<open>discount x gamma\<close> has the length of \<open>x\<close>; its entry \<open>t\<close> is the sum of
  \<open>gamma^k * x[t+k]\<close> over \<open>k < T - t\<close>, which is the backward recurrence
  \<open>y[t] = x[t] + gamma * y[t+1]\<close> with \<open>y = 0\<close> beyond the end; a zero sequence gives
  zeros for any \<open>gamma\<close>, \<open>gamma = 0\<close> gives \<open>x\<close> back, and a constant sequence \<open>c\<close>
  of length \<open>T\<close> gives \<open>c * (1 - gamma^(T-s)) / (1 - gamma)\<close> at \<open>s\<close> when \<open>gamma \<noteq> 1\<close>.
\<close>

theorem discount_contract:
  "length (discount x gamma) = length x \<and>
   (t < length x \<longrightarrow>
      discount x gamma ! t = (\<Sum>k<length x - t. gamma ^ k * x ! (t + k)) \<and>
      discount x gamma ! t
        = x ! t + gamma * (if Suc t < length x then discount x gamma ! Suc t else 0)) \<and>
   discount (replicate T 0) gamma = replicate T 0 \<and>
   discount x 0 = x \<and>
   (gamma \<noteq> 1 \<and> s < T \<longrightarrow>
      discount (replicate T c) gamma ! s = c * (1 - gamma ^ (T - s)) / (1 - gamma))"
proof (intro conjI impI)
  show "length (discount x gamma) = length x"
    by simp
  show "discount x gamma ! t = (\<Sum>k<length x - t. gamma ^ k * x ! (t + k))"
    if "t < length x" using that by (simp add: discount_bscan bscan_nth_sum)
  show "discount x gamma ! t
       = x ! t + gamma * (if Suc t < length x then discount x gamma ! Suc t else 0)"
    if "t < length x"
    using that unfolding discount_bscan by (rule bscan_nth_step)
  show "discount (replicate T 0) gamma = replicate T 0"
    by (simp add: discount_bscan bscan_zero)
  show "discount x 0 = x"
    by (simp add: discount_bscan bscan_gamma0)
  show "discount (replicate T c) gamma ! s = c * (1 - gamma ^ (T - s)) / (1 - gamma)"
    if "gamma \<noteq> 1 \<and> s < T" using that by (simp add: discount_bscan bscan_const)
qed

theorem discount_contract_witness:
  "(1::nat) < length [1, 2, 3 :: real] \<and>
   length (discount [1, 2, 3] (1 / 2)) = length [1, 2, 3 :: real] \<and>
   discount [1, 2, 3] (1 / 2) ! 1
     = (\<Sum>k<length [1, 2, 3 :: real] - 1. (1 / 2) ^ k * [1, 2, 3] ! (1 + k)) \<and>
   discount [1, 2, 3] (1 / 2) ! 1
     = [1, 2, 3] ! 1
       + 1 / 2 * (if Suc 1 < length [1, 2, 3 :: real] then discount [1, 2, 3] (1 / 2) ! Suc 1 else 0) \<and>
   ((1 / 2 :: real) \<noteq> 1 \<and> (1::nat) < 3) \<and>
   discount (replicate 3 4) (1 / 2) ! 1 = 4 * (1 - (1 / 2) ^ (3 - 1)) / (1 - 1 / 2) \<and>
   discount [1, 2, 3] (1 / 2) = [11 / 4, 7 / 2, 3]"
proof -
  have h: "(1::nat) < length [1, 2, 3 :: real]"
    by simp
  have g: "(1 / 2 :: real) \<noteq> 1 \<and> (1::nat) < 3"
    by simp
  have v: "discount [1, 2, 3] (1 / 2) = [11 / 4, 7 / 2, 3]"
    by (simp add: discount_def lfilter_def Let_def)
  from discount_contract [of "[1, 2, 3]" "1 / 2" 1 3 1 4] h g v show ?thesis
    by blast
qed

section \<open>Generalized advantage estimation: residuals, advantages and targets\<close>

lemma np_binop_same_length:
  "length xs = length ys \<Longrightarrow> np_binop f xs ys = Inr (map2 f xs ys)"
  by (simp add: np_binop_def)

lemma deltas_td_residuals:
  assumes "length values = Suc (length rewards)"
  shows "map2 (-) (map2 (+) rewards (map (\<lambda>v. g * v) (tl values))) (butlast values)
         = td_residuals g rewards values"
  using assms by (intro nth_equalityI) (simp_all add: td_residuals_def nth_tl nth_butlast)

lemma gae_values_shaped:
  assumes "length values = Suc (length rewards)"
  shows "get_general_advantage_estimation_values ap rewards values =
     Inr (discount (td_residuals (ap_discount ap) rewards values) (ap_discount ap * gae_lambda ap),
          if estimate_state_value_using_gae ap
          then map2 (+) (discount (td_residuals (ap_discount ap) rewards values)
                           (ap_discount ap * gae_lambda ap)) (butlast values)
          else butlast (discount (rewards @ [last values]) (ap_discount ap)))"
proof -
  have ne: "values \<noteq> []" using assms by auto
  have l1: "length rewards = length (map (\<lambda>v. ap_discount ap * v) (tl values))"
    using assms by simp
  have l2: "length (map2 (+) rewards (map (\<lambda>v. ap_discount ap * v) (tl values)))
            = length (butlast values)"
    using assms by simp
  have l3: "length (discount (td_residuals (ap_discount ap) rewards values)
                  (ap_discount ap * gae_lambda ap)) = length (butlast values)"
    using assms by (simp add: td_residuals_def)
  show ?thesis
    unfolding get_general_advantage_estimation_values_def Let_def
    by (simp add: ne np_binop_same_length [OF l1] np_binop_same_length [OF l2]
          np_binop_same_length [OF l3] deltas_td_residuals [OF assms])
qed

lemma td_residuals_nth:
  "i < length rewards \<Longrightarrow>
     td_residuals g rewards values ! i = rewards ! i + g * values ! Suc i - values ! i"
  by (simp add: td_residuals_def)

lemma length_td_residuals [simp]: "length (td_residuals g rewards values) = length rewards"
  by (simp add: td_residuals_def)

text \<open>With \<open>lambda = 1\<close> the residuals telescope: the advantage plus the value estimate
  is the bootstrapped discounted return.\<close>

lemma residuals_telescope:
  assumes "length values = Suc (length rewards)"
  shows "map2 (+) (bscan g (map2 (-) (map2 (+) rewards (map (\<lambda>v. g * v) (tl values))) (butlast values)))
              (butlast values)
           = butlast (bscan g (rewards @ [last values])) \<and>
         hd values + hd0 (bscan g (map2 (-) (map2 (+) rewards (map (\<lambda>v. g * v) (tl values))) (butlast values)))
           = hd0 (bscan g (rewards @ [last values]))"
  using assms
proof (induction rewards arbitrary: "values")
  case Nil
  then obtain v where "values = [v]"
    by (cases "values") simp_all
  then show ?case by simp
next
  case (Cons x rewards)
  from Cons.prems obtain v v' rest where vs: "values = v # v' # rest"
    by (cases "values"; cases "tl values") simp_all
  have len: "length (v' # rest) = Suc (length rewards)"
    using Cons.prems vs by simp
  define A where
    "A = bscan g (map2 (-) (map2 (+) rewards (map (\<lambda>v. g * v) rest)) (butlast (v' # rest)))"
  define Y where "Y = bscan g (rewards @ [last (v' # rest)])"
  have IH: "map2 (+) A (butlast (v' # rest)) = butlast Y \<and> v' + hd0 A = hd0 Y"
    using Cons.IH [OF len] by (simp add: A_def Y_def)
  have ne: "Y \<noteq> []"
    unfolding Y_def by (cases rewards) simp_all
  have lhs: "bscan g (map2 (-) (map2 (+) (x # rewards) (map (\<lambda>v. g * v) (tl values))) (butlast values))
             = (x + g * v' - v + g * hd0 A) # A"
    by (simp add: vs A_def)
  have rhs: "bscan g ((x # rewards) @ [last values]) = (x + g * hd0 Y) # Y"
    by (simp add: vs Y_def)
  have bl: "butlast values = v # butlast (v' # rest)"
    by (simp add: vs)
  have head: "x + g * v' - v + g * hd0 A + v = x + g * hd0 Y"
    using IH by (simp add: algebra_simps flip: distrib_left)
  have "map2 (+) ((x + g * v' - v + g * hd0 A) # A) (butlast values) = butlast ((x + g * hd0 Y) # Y)"
    unfolding bl using IH ne head by simp
  moreover have "hd values + hd0 ((x + g * v' - v + g * hd0 A) # A) = hd0 ((x + g * hd0 Y) # Y)"
    using head by (simp add: vs)
  ultimately show ?case
    unfolding lhs rhs by blast
qed

lemma gae_lambda_one_target:
  assumes "length values = Suc (length rewards)"
  shows "map2 (+) (discount (td_residuals g rewards values) g) (butlast values)
         = butlast (discount (rewards @ [last values]) g)"
  using residuals_telescope [OF assms, of g]
  by (simp add: discount_bscan deltas_td_residuals [OF assms])

text \<open>
  C2. For rewards of length \<open>N\<close> and values of length \<open>N + 1\<close>,
  \<open>get_general_advantage_estimation_values\<close> returns the advantages
  \<open>discount delta (gamma * lambda)\<close> of the TD residuals
  \<open>delta[i] = reward[i] + gamma * V[i+1] - V[i]\<close>, with the targets
  \<open>advantage[i] + V[i]\<close> when \<open>estimate_state_value_using_gae\<close> is set and
  \<open>discount (rewards ++ [V[N]]) gamma [i]\<close> otherwise. For \<open>gamma = 0.99\<close>,
  \<open>lambda = 0.95\<close>, rewards \<open>[2, 3]\<close> and values \<open>[1, 1, 0]\<close> the advantages are
  \<open>[3.871, 2]\<close>.
\<close>

theorem gae_values_contract:
  "(length values = Suc (length rewards) \<longrightarrow>
      (\<exists>gae targets.
         get_general_advantage_estimation_values ap rewards values = Inr (gae, targets) \<and>
         gae = discount (td_residuals (ap_discount ap) rewards values)
                 (ap_discount ap * gae_lambda ap) \<and>
         length gae = length rewards \<and> length targets = length rewards \<and>
         (\<forall>i<length rewards.
            td_residuals (ap_discount ap) rewards values ! i
              = rewards ! i + ap_discount ap * values ! Suc i - values ! i \<and>
            targets ! i =
              (if estimate_state_value_using_gae ap then gae ! i + values ! i
               else discount (rewards @ [values ! length rewards]) (ap_discount ap) ! i)))) \<and>
   (\<exists>targets.
      get_general_advantage_estimation_values
        \<lparr>policy_gradient_rescaler = m, ap_discount = 99 / 100, gae_lambda = 95 / 100,
         estimate_state_value_using_gae = b\<rparr> [2, 3] [1, 1, 0]
      = Inr ([3871 / 1000, 2], targets))"
proof (intro conjI impI)
  assume len: "length values = Suc (length rewards)"
  define gae where
    "gae = discount (td_residuals (ap_discount ap) rewards values) (ap_discount ap * gae_lambda ap)"
  define targets where
    "targets = (if estimate_state_value_using_gae ap then map2 (+) gae (butlast values)
                else butlast (discount (rewards @ [last values]) (ap_discount ap)))"
  have run: "get_general_advantage_estimation_values ap rewards values = Inr (gae, targets)"
    unfolding gae_def targets_def by (rule gae_values_shaped [OF len])
  have lg: "length gae = length rewards"
    by (simp add: gae_def)
  have lt: "length targets = length rewards"
    using len by (simp add: targets_def lg)
  have lastv: "last values = values ! length rewards"
    using len by (cases "values" rule: rev_cases) (simp_all add: nth_append)
  have tg: "targets ! i =
              (if estimate_state_value_using_gae ap then gae ! i + values ! i
               else discount (rewards @ [values ! length rewards]) (ap_discount ap) ! i)"
    if "i < length rewards" for i
    using that len by (simp add: targets_def lg nth_butlast lastv)
  show "\<exists>gae targets.
         get_general_advantage_estimation_values ap rewards values = Inr (gae, targets) \<and>
         gae = discount (td_residuals (ap_discount ap) rewards values)
                 (ap_discount ap * gae_lambda ap) \<and>
         length gae = length rewards \<and> length targets = length rewards \<and>
         (\<forall>i<length rewards.
            td_residuals (ap_discount ap) rewards values ! i
              = rewards ! i + ap_discount ap * values ! Suc i - values ! i \<and>
            targets ! i =
              (if estimate_state_value_using_gae ap then gae ! i + values ! i
               else discount (rewards @ [values ! length rewards]) (ap_discount ap) ! i))"
    using run lg lt tg td_residuals_nth gae_def by blast
next
  show "\<exists>targets.
      get_general_advantage_estimation_values
        \<lparr>policy_gradient_rescaler = m, ap_discount = 99 / 100, gae_lambda = 95 / 100,
         estimate_state_value_using_gae = b\<rparr> [2, 3] [1, 1, 0]
      = Inr ([3871 / 1000, 2], targets)"
    by (simp add: get_general_advantage_estimation_values_def np_binop_def discount_def
          lfilter_def Let_def)
qed

theorem gae_values_contract_witness:
  "length [1, 1, 0 :: real] = Suc (length [2, 3 :: real]) \<and>
   (\<exists>gae targets.
      get_general_advantage_estimation_values
        \<lparr>policy_gradient_rescaler = GAE, ap_discount = 1 / 2, gae_lambda = 1,
         estimate_state_value_using_gae = True\<rparr> [2, 3] [1, 1, 0] = Inr (gae, targets) \<and>
      length gae = length [2, 3 :: real] \<and> length targets = length [2, 3 :: real] \<and>
      targets ! 1 = gae ! 1 + [1, 1, 0] ! 1)"
proof -
  have h: "length [1, 1, 0 :: real] = Suc (length [2, 3 :: real])"
    by simp
  have i: "(1::nat) < length [2, 3 :: real]"
    by simp
  from gae_values_contract
         [of "[1, 1, 0]" "[2, 3]"
             "\<lparr>policy_gradient_rescaler = GAE, ap_discount = 1 / 2, gae_lambda = 1,
               estimate_state_value_using_gae = True\<rparr>"]
  obtain gae targets where
    "get_general_advantage_estimation_values
        \<lparr>policy_gradient_rescaler = GAE, ap_discount = 1 / 2, gae_lambda = 1,
         estimate_state_value_using_gae = True\<rparr> [2, 3] [1, 1, 0] = Inr (gae, targets)"
    "length gae = length [2, 3 :: real]" "length targets = length [2, 3 :: real]"
    "\<forall>i<length [2, 3 :: real]. targets ! i =
        (if estimate_state_value_using_gae
              \<lparr>policy_gradient_rescaler = GAE, ap_discount = 1 / 2, gae_lambda = 1,
               estimate_state_value_using_gae = True\<rparr>
         then gae ! i + [1, 1, 0] ! i
         else discount ([2, 3] @ [[1, 1, 0] ! length [2, 3 :: real]])
                (ap_discount \<lparr>policy_gradient_rescaler = GAE, ap_discount = 1 / 2, gae_lambda = 1,
               estimate_state_value_using_gae = True\<rparr>) ! i)"
    using h by blast
  then show ?thesis
    using h i by (intro conjI exI [of _ gae] exI [of _ targets]) simp_all
qed

text \<open>
  C8. With \<open>gae_lambda = 1\<close> and \<open>estimate_state_value_using_gae\<close> false, the target
  of a window (rewards of length \<open>N\<close>, values of length \<open>N + 1\<close>) is the plain
  bootstrapped discounted return \<open>discount (rewards ++ [V[N]]) gamma [i]\<close>, and it
  coincides with the GAE-based target \<open>advantage[i] + V[i]\<close>.
\<close>

theorem gae_lambda_one_plain_return:
  "length values = Suc (length rewards) \<and> gae_lambda ap = 1 \<and>
   \<not> estimate_state_value_using_gae ap \<longrightarrow>
     (\<exists>gae targets.
        get_general_advantage_estimation_values ap rewards values = Inr (gae, targets) \<and>
        length targets = length rewards \<and>
        (\<forall>i<length rewards.
           targets ! i = discount (rewards @ [values ! length rewards]) (ap_discount ap) ! i \<and>
           targets ! i = gae ! i + values ! i))"
proof
  assume a: "length values = Suc (length rewards) \<and> gae_lambda ap = 1 \<and>
             \<not> estimate_state_value_using_gae ap"
  then have len: "length values = Suc (length rewards)"
    by simp
  define gae where "gae = discount (td_residuals (ap_discount ap) rewards values) (ap_discount ap)"
  define targets where "targets = butlast (discount (rewards @ [last values]) (ap_discount ap))"
  have run: "get_general_advantage_estimation_values ap rewards values = Inr (gae, targets)"
    using a by (simp add: gae_values_shaped [OF len] gae_def targets_def)
  have lt: "length targets = length rewards"
    by (simp add: targets_def)
  have lastv: "last values = values ! length rewards"
    using len by (cases "values" rule: rev_cases) (simp_all add: nth_append)
  have tele: "map2 (+) gae (butlast values) = targets"
    unfolding gae_def targets_def by (rule gae_lambda_one_target [OF len])
  have "targets ! i = discount (rewards @ [values ! length rewards]) (ap_discount ap) ! i \<and>
        targets ! i = gae ! i + values ! i" if "i < length rewards" for i
  proof
    show "targets ! i = discount (rewards @ [values ! length rewards]) (ap_discount ap) ! i"
      using that by (simp add: targets_def nth_butlast lastv)
    have "targets ! i = map2 (+) gae (butlast values) ! i"
      by (simp only: tele)
    also have "\<dots> = gae ! i + values ! i"
      using that len by (simp add: gae_def nth_butlast)
    finally show "targets ! i = gae ! i + values ! i" .
  qed
  with run lt show "\<exists>gae targets.
        get_general_advantage_estimation_values ap rewards values = Inr (gae, targets) \<and>
        length targets = length rewards \<and>
        (\<forall>i<length rewards.
           targets ! i = discount (rewards @ [values ! length rewards]) (ap_discount ap) ! i \<and>
           targets ! i = gae ! i + values ! i)"
    by blast
qed

theorem gae_lambda_one_plain_return_witness:
  "\<exists>gae targets.
     get_general_advantage_estimation_values
       \<lparr>policy_gradient_rescaler = GAE, ap_discount = 1 / 2, gae_lambda = 1,
        estimate_state_value_using_gae = False\<rparr> [2, 3] [1, 1, 4] = Inr (gae, targets) \<and>
     length targets = 2 \<and>
     targets ! 0 = discount [2, 3, 4] (1 / 2) ! 0 \<and>
     targets ! 0 = gae ! 0 + 1 \<and>
     targets = [9 / 2, 5]"
proof -
  let ?ap = "\<lparr>policy_gradient_rescaler = GAE, ap_discount = 1 / 2, gae_lambda = 1,
        estimate_state_value_using_gae = False\<rparr>"
  have h: "length [1, 1, 4 :: real] = Suc (length [2, 3 :: real]) \<and> gae_lambda ?ap = 1 \<and>
           \<not> estimate_state_value_using_gae ?ap"
    by simp
  from gae_lambda_one_plain_return [of "[1, 1, 4]" "[2, 3]" ?ap] h
  obtain gae targets where r:
    "get_general_advantage_estimation_values ?ap [2, 3] [1, 1, 4] = Inr (gae, targets)"
    "length targets = length [2, 3 :: real]"
    "\<forall>i<length [2, 3 :: real].
       targets ! i = discount ([2, 3] @ [[1, 1, 4] ! length [2, 3 :: real]]) (ap_discount ?ap) ! i \<and>
       targets ! i = gae ! i + [1, 1, 4] ! i"
    by blast
  have v: "get_general_advantage_estimation_values ?ap [2, 3] [1, 1, 4]
           = Inr ([7 / 2, 4], [9 / 2, 5])"
    by (simp add: get_general_advantage_estimation_values_def np_binop_def discount_def
          lfilter_def Let_def)
  have t: "targets = [9 / 2, 5]"
    using r(1) v by simp
  have z: "(0::nat) < length [2, 3 :: real]"
    by simp
  from r(3) z have
    "targets ! 0 = discount ([2, 3] @ [[1, 1, 4] ! length [2, 3 :: real]]) (ap_discount ?ap) ! 0 \<and>
     targets ! 0 = gae ! 0 + [1, 1, 4] ! 0"
    by blast
  then show ?thesis
    using r(1,2) t by (intro exI [of _ gae] exI [of _ targets]) simp
qed

section \<open>Actor-critic: the backward recursion of learn_from_batch\<close>

lemma returns_loop_snoc:
  "returns_loop g rewards V (is @ [k]) s
     = returns_loop g rewards V [k] (returns_loop g rewards V is s)"
  by (induction g rewards V "is" s rule: returns_loop.induct) (simp_all add: Let_def)

lemma returns_inv_step:
  assumes "returns_inv g rewards V R0 n (Suc k) s" "k < n"
  shows "returns_inv g rewards V R0 n k (returns_loop g rewards V [k] s)"
proof -
  obtain R targets advantages where s: "s = (R, targets, advantages)"
    by (cases s)
  from assms(1) have len: "length targets = n" "length advantages = n"
    and R: "R = (if Suc k < n then targets ! Suc k else R0)"
    and old: "\<And>i. Suc k \<le> i \<Longrightarrow> i < n \<Longrightarrow>
           targets ! i = rewards ! i + g * (if Suc i < n then targets ! Suc i else R0) \<and>
           advantages ! i = targets ! i - V ! i"
    by (simp_all add: returns_inv_def s)
  define R' where "R' = rewards ! k + g * R"
  have run: "returns_loop g rewards V [k] s
             = (R', targets[k := R'], advantages[k := R' - V ! k])"
    by (simp add: s R'_def Let_def)
  have new: "targets[k := R'] ! i
               = rewards ! i + g * (if Suc i < n then targets[k := R'] ! Suc i else R0) \<and>
             advantages[k := R' - V ! k] ! i = targets[k := R'] ! i - V ! i"
    if "k \<le> i" "i < n" for i
  proof (cases "i = k")
    case True
    then show ?thesis
      using assms(2) len R by (simp add: R'_def)
  next
    case False
    with that have "Suc k \<le> i" by simp
    from old [OF this that(2)] False show ?thesis
      using that len by simp
  qed
  show ?thesis
    unfolding run returns_inv_def using len assms(2) new by simp
qed

lemma returns_loop_inv:
  assumes "k \<le> n"
  shows "returns_inv g rewards V R0 n k
           (returns_loop g rewards V (rev [k..<n]) (R0, replicate n 0, replicate n 0))"
  using assms
proof (induction rule: inc_induct)
  case base
  show ?case by (simp add: returns_inv_def)
next
  case (step k)
  have "rev [k..<n] = rev [Suc k..<n] @ [k]"
    using step.hyps by (simp add: upt_conv_Cons)
  then show ?case
    using returns_inv_step [OF step.IH step.hyps(2)] by (simp add: returns_loop_snoc)
qed

lemma returns_loop_recursion:
  assumes "returns_loop g rewards V (rev [0..<n]) (R0, replicate n 0, replicate n 0)
           = (R, targets, advantages)"
  shows "length targets = n \<and> length advantages = n \<and>
         (\<forall>i<n. targets ! i = rewards ! i + g * (if Suc i < n then targets ! Suc i else R0) \<and>
                  advantages ! i = targets ! i - V ! i)"
  using returns_loop_inv [of 0 n g rewards V R0] assms by (simp add: returns_inv_def)

text \<open>
  C3. In \<open>A_VALUE\<close> mode, on a batch of \<open>N\<close> transitions, \<open>learn_from_batch\<close> starts
  from the bootstrap \<open>R = 0\<close> when the last transition is terminal and from the predicted
  value of the state after it otherwise, and for \<open>i = N - 1\<close> down to \<open>0\<close> sets
  \<open>R = reward[i] + gamma * R\<close>, \<open>target[i] = R\<close> and \<open>advantage[i] = R - V[i]\<close>. For rewards
  \<open>[1, 1, 1]\<close>, \<open>gamma = 0.9\<close>, a terminal last transition and predicted values \<open>0\<close> the
  targets and the advantages are \<open>[2.71, 1.9, 1]\<close>.
\<close>

theorem learn_from_batch_a_value:
  "(policy_gradient_rescaler (algorithm_parameters ag) = A_VALUE \<and> batch \<noteq> [] \<longrightarrow>
      (\<exists>targets advantages.
         learn_from_batch ag batch = Inr (targets, advantages) \<and>
         length targets = length batch \<and> length advantages = length batch \<and>
         (\<forall>i<length batch.
            targets ! i
              = reward (batch ! i)
                + ap_discount (algorithm_parameters ag)
                  * (if Suc i < length batch then targets ! Suc i
                     else if game_over (last batch) then 0
                     else value_head ag (next_state (last batch))) \<and>
            advantages ! i = targets ! i - value_head ag (state (batch ! i))))) \<and>
   learn_from_batch
     \<lparr>algorithm_parameters =
        \<lparr>policy_gradient_rescaler = A_VALUE, ap_discount = 9 / 10, gae_lambda = l,
         estimate_state_value_using_gae = b\<rparr>,
      value_head = (\<lambda>s. 0), critic_q_values = q, policy_probs = p\<rparr>
     [\<lparr>state = s1, reward = 1, next_state = s2, game_over = g1, total_return = t1, info = i1\<rparr>,
      \<lparr>state = s2, reward = 1, next_state = s3, game_over = g2, total_return = t2, info = i2\<rparr>,
      \<lparr>state = s3, reward = 1, next_state = s4, game_over = True, total_return = t3, info = i3\<rparr>]
   = Inr ([271 / 100, 19 / 10, 1], [271 / 100, 19 / 10, 1])"
proof (intro conjI impI)
  assume a: "policy_gradient_rescaler (algorithm_parameters ag) = A_VALUE \<and> batch \<noteq> []"
  define R0 where
    "R0 = (if game_over (last batch) then 0 else value_head ag (next_state (last batch)))"
  define V where "V = map (value_head ag) (map state batch)"
  obtain R targets advantages where run:
    "returns_loop (ap_discount (algorithm_parameters ag)) (map reward batch) V
       (rev [0..<length batch]) (R0, replicate (length batch) 0, replicate (length batch) 0)
     = (R, targets, advantages)"
    by (metis prod_cases3)
  have res: "learn_from_batch ag batch = Inr (targets, advantages)"
    using a run by (simp add: learn_from_batch_def Let_def R0_def V_def)
  from returns_loop_recursion [OF run]
  have "length targets = length batch \<and> length advantages = length batch \<and>
        (\<forall>i<length batch.
            targets ! i
              = reward (batch ! i)
                + ap_discount (algorithm_parameters ag)
                  * (if Suc i < length batch then targets ! Suc i else R0) \<and>
            advantages ! i = targets ! i - value_head ag (state (batch ! i)))"
    by (simp add: V_def)
  with res show "\<exists>targets advantages.
         learn_from_batch ag batch = Inr (targets, advantages) \<and>
         length targets = length batch \<and> length advantages = length batch \<and>
         (\<forall>i<length batch.
            targets ! i
              = reward (batch ! i)
                + ap_discount (algorithm_parameters ag)
                  * (if Suc i < length batch then targets ! Suc i
                     else if game_over (last batch) then 0
                     else value_head ag (next_state (last batch))) \<and>
            advantages ! i = targets ! i - value_head ag (state (batch ! i)))"
    unfolding R0_def by blast
next
  show "learn_from_batch
     \<lparr>algorithm_parameters =
        \<lparr>policy_gradient_rescaler = A_VALUE, ap_discount = 9 / 10, gae_lambda = l,
         estimate_state_value_using_gae = b\<rparr>,
      value_head = (\<lambda>s. 0), critic_q_values = q, policy_probs = p\<rparr>
     [\<lparr>state = s1, reward = 1, next_state = s2, game_over = g1, total_return = t1, info = i1\<rparr>,
      \<lparr>state = s2, reward = 1, next_state = s3, game_over = g2, total_return = t2, info = i2\<rparr>,
      \<lparr>state = s3, reward = 1, next_state = s4, game_over = True, total_return = t3, info = i3\<rparr>]
   = Inr ([271 / 100, 19 / 10, 1], [271 / 100, 19 / 10, 1])"
    by (simp add: learn_from_batch_def Let_def)
qed

theorem learn_from_batch_a_value_witness:
  "(policy_gradient_rescaler (algorithm_parameters (demo_agent A_VALUE False)) = A_VALUE \<and>
    [demo_transition 0 1 True, demo_transition 1 2 False] \<noteq> []) \<and>
   (\<exists>targets advantages.
      learn_from_batch (demo_agent A_VALUE False)
        [demo_transition 0 1 True, demo_transition 1 2 False] = Inr (targets, advantages) \<and>
      length targets = 2 \<and> length advantages = 2 \<and>
      targets ! 1 = 2 + 1 / 2 * 2 \<and> advantages ! 1 = targets ! 1 - 1 \<and>
      targets = [5 / 2, 3])"
proof -
  let ?ag = "demo_agent A_VALUE False"
  let ?batch = "[demo_transition 0 1 True, demo_transition 1 2 False]"
  have h: "policy_gradient_rescaler (algorithm_parameters ?ag) = A_VALUE \<and> ?batch \<noteq> []"
    by (simp add: demo_agent_def)
  from learn_from_batch_a_value [of ?ag ?batch, THEN conjunct1] h
  obtain targets advantages where r:
    "learn_from_batch ?ag ?batch = Inr (targets, advantages)"
    "length targets = length ?batch" "length advantages = length ?batch"
    "\<forall>i<length ?batch.
        targets ! i
          = reward (?batch ! i)
            + ap_discount (algorithm_parameters ?ag)
              * (if Suc i < length ?batch then targets ! Suc i
                 else if game_over (last ?batch) then 0
                 else value_head ?ag (next_state (last ?batch))) \<and>
        advantages ! i = targets ! i - value_head ?ag (state (?batch ! i))"
    by blast
  have v: "learn_from_batch ?ag ?batch = Inr ([5 / 2, 3], [5 / 2, 2])"
    by (simp add: learn_from_batch_def demo_agent_def demo_transition_def Let_def)
  have t: "targets = [5 / 2, 3]"
    using r(1) v by simp
  have "(1::nat) < length ?batch"
    by simp
  with r(4) have
    "targets ! 1
          = reward (?batch ! 1)
            + ap_discount (algorithm_parameters ?ag)
              * (if Suc 1 < length ?batch then targets ! Suc 1
                 else if game_over (last ?batch) then 0
                 else value_head ?ag (next_state (last ?batch))) \<and>
        advantages ! 1 = targets ! 1 - value_head ?ag (state (?batch ! 1))"
    by blast
  then have "targets ! 1 = 2 + 1 / 2 * 2 \<and> advantages ! 1 = targets ! 1 - 1"
    by (simp add: demo_agent_def demo_transition_def)
  with h r(1,2,3) t show ?thesis
    by (intro conjI exI [of _ targets] exI [of _ advantages]) simp_all
qed

section \<open>Actor-critic: one window per batch\<close>





section \<open>Clipped PPO: the minibatches of an epoch\<close>

lemma minibatch_loop_net:
  "fst (minibatch_loop step M batch is (net, loss, pl))
     = foldl (\<lambda>n mb. fst (step n mb)) net (map (\<lambda>i. slice (i * M) ((i + 1) * M) batch) is)"
  by (induction "is" arbitrary: net loss pl) (simp_all add: Let_def split: prod.splits)

lemma minibatch_loop_lengths:
  assumes "minibatch_loop step M batch is (net, loss, pl) = (net', loss', pl')"
  shows "length (total_loss_list loss') = length (total_loss_list loss) + length is \<and>
        length (policy_losses_list loss') = length (policy_losses_list loss) + length is \<and>
        length (unclipped_grads_list loss') = length (unclipped_grads_list loss) + length is \<and>
        length (fetch_result_list loss') = length (fetch_result_list loss) + length is"
  using assms
proof (induction "is" arbitrary: net loss pl)
  case Nil
  then show ?case by simp
next
  case (Cons i "is")
  obtain n1 r where st: "step net (slice (i * M) ((i + 1) * M) batch) = (n1, r)"
    by (cases "step net (slice (i * M) ((i + 1) * M) batch)")
  let ?loss = "loss\<lparr>total_loss_list := total_loss_list loss @ [total_loss r],
              policy_losses_list := policy_losses_list loss @ [policy_losses r],
              unclipped_grads_list := unclipped_grads_list loss @ [unclipped_grads r],
              fetch_result_list := fetch_result_list loss @ [fetch_result r]\<rparr>"
  have "minibatch_loop step M batch is (n1, ?loss, Some (policy_losses r)) = (net', loss', pl')"
    using Cons.prems st by (simp add: Let_def)
  from Cons.IH [OF this] show ?case
    by simp
qed

lemma minibatch_loop_rows:
  assumes "\<forall>n mb. length (policy_losses (snd (step n mb))) = a \<and>
                  length (fetch_result (snd (step n mb))) = b"
    and "minibatch_loop step M batch is (net, loss, pl) = (net', loss', pl')"
    and "\<forall>row \<in> set (policy_losses_list loss). length row = a"
    and "\<forall>row \<in> set (fetch_result_list loss). length row = b"
    and "is = [] \<longrightarrow> pl \<noteq> None"
  shows "(\<forall>row \<in> set (policy_losses_list loss'). length row = a) \<and>
        (\<forall>row \<in> set (fetch_result_list loss'). length row = b) \<and> pl' \<noteq> None"
  using assms(2-)
proof (induction "is" arbitrary: net loss pl)
  case Nil
  then show ?case by simp
next
  case (Cons i "is")
  obtain n1 r where st: "step net (slice (i * M) ((i + 1) * M) batch) = (n1, r)"
    by (cases "step net (slice (i * M) ((i + 1) * M) batch)")
  have r: "length (policy_losses r) = a" "length (fetch_result r) = b"
    using assms(1) [rule_format, of net "slice (i * M) ((i + 1) * M) batch"] st by simp_all
  let ?loss = "loss\<lparr>total_loss_list := total_loss_list loss @ [total_loss r],
              policy_losses_list := policy_losses_list loss @ [policy_losses r],
              unclipped_grads_list := unclipped_grads_list loss @ [unclipped_grads r],
              fetch_result_list := fetch_result_list loss @ [fetch_result r]\<rparr>"
  have run: "minibatch_loop step M batch is (n1, ?loss, Some (policy_losses r)) = (net', loss', pl')"
    using Cons.prems(1) st by (simp add: Let_def)
  have p: "\<forall>row \<in> set (policy_losses_list ?loss). length row = a"
    using Cons.prems(2) r by simp
  have f: "\<forall>row \<in> set (fetch_result_list ?loss). length row = b"
    using Cons.prems(3) r by simp
  have s: "is = [] \<longrightarrow> Some (policy_losses r) \<noteq> None"
    by simp
  from Cons.IH [OF run p f s] show ?case .
qed

lemma length_minibatches [simp]: "length (minibatches M batch) = length batch div M"
  by (simp add: minibatches_def)

lemma concat_slices:
  "concat (map (\<lambda>i. slice (i * M) ((i + 1) * M) batch) [0..<k]) = take (k * M) batch"
proof (induction k)
  case 0
  show ?case by simp
next
  case (Suc k)
  have "take (k * M) batch @ drop (k * M) (take (M + k * M) batch)
        = take (k * M) (take (M + k * M) batch) @ drop (k * M) (take (M + k * M) batch)"
    by (simp add: min_def)
  also have "\<dots> = take (M + k * M) batch"
    by (rule append_take_drop_id)
  finally show ?case
    using Suc.IH by (simp add: slice_def)
qed

lemma concat_minibatches:
  "concat (minibatches M batch) = take (M * (length batch div M)) batch"
  unfolding minibatches_def concat_slices by (simp add: mult.commute)

lemma length_minibatch:
  assumes "i < length batch div M"
  shows "length (slice (i * M) ((i + 1) * M) batch) = M"
proof -
  have "Suc i \<le> length batch div M"
    using assms by simp
  then have "Suc i * M \<le> (length batch div M) * M"
    by (rule mult_le_mono1)
  also have "\<dots> \<le> length batch"
    by simp
  finally show ?thesis
    by (simp add: slice_def min_def)
qed

lemma length_remainder:
  "length (drop (M * (length batch div M)) batch) = length batch mod M"
  by (simp add: minus_mult_div_eq_mod)

lemma np_mean0_rows_rectangular:
  assumes "rows \<noteq> []" "\<forall>row \<in> set rows. length row = a"
  shows "\<exists>xs. np_mean0_rows nx rows = Inr (Array xs) \<and> length xs = a"
proof -
  obtain r rs where rows: "rows = r # rs"
    using assms(1) by (cases rows) simp_all
  with assms(2) have "\<forall>row \<in> set rs. length row = length r" "length r = a"
    by simp_all
  then show ?thesis
    by (simp add: np_mean0_rows_def rows)
qed

lemma minibatch_loop_run:
  assumes "minibatch_loop step M batch is (net, loss, pl) = (net', loss', pl')"
  shows "(net', pl') = run_minibatches step (net, pl) (map (\<lambda>i. slice (i * M) ((i + 1) * M) batch) is)"
  using assms
proof (induction "is" arbitrary: net loss pl)
  case Nil
  then show ?case by (simp add: run_minibatches_def)
next
  case (Cons i "is")
  obtain n1 r where st: "step net (slice (i * M) ((i + 1) * M) batch) = (n1, r)"
    by (cases "step net (slice (i * M) ((i + 1) * M) batch)")
  let ?loss = "loss\<lparr>total_loss_list := total_loss_list loss @ [total_loss r],
              policy_losses_list := policy_losses_list loss @ [policy_losses r],
              unclipped_grads_list := unclipped_grads_list loss @ [unclipped_grads r],
              fetch_result_list := fetch_result_list loss @ [fetch_result r]\<rparr>"
  have "minibatch_loop step M batch is (n1, ?loss, Some (policy_losses r)) = (net', loss', pl')"
    using Cons.prems st by (simp add: Let_def)
  from Cons.IH [OF this] show ?case
    using st by (simp add: run_minibatches_def)
qed

lemma train_epoch_run:
  assumes "0 < M"
    and "minibatch_loop step M batch [0..<length batch div M] (net, empty_loss, pl) = (net', loss', pl')"
  shows "fst (train_epoch nx step M batch (net, pl)) = (net', pl')"
  using assms by (simp add: train_epoch_def Let_def)

lemma train_epoch_returns:
  assumes "0 < M" "M \<le> length batch"
    and rows: "\<forall>n mb. length (policy_losses (snd (step n mb))) = 2 \<and>
                  length (fetch_result (snd (step n mb))) = 2"
  shows "\<exists>means fs l.
           train_epoch nx step M batch (net, pl)
             = (run_minibatches step (net, pl) (minibatches M batch), Inr means) \<and>
           fetch_result_mean means = Array fs \<and> length fs = 2 \<and>
           snd (run_minibatches step (net, pl) (minibatches M batch)) = Some l"
proof -
  obtain net' loss' pl' where run:
    "minibatch_loop step M batch [0..<length batch div M] (net, empty_loss, pl) = (net', loss', pl')"
    by (metis prod_cases3)
  have pos: "0 < length batch div M"
    using assms(1,2) by (simp add: div_greater_zero_iff)
  from minibatch_loop_lengths [OF run]
  have ne: "policy_losses_list loss' \<noteq> []" "fetch_result_list loss' \<noteq> []"
    using pos by (auto simp: empty_loss_def)
  have "[0..<length batch div M] = [] \<longrightarrow> pl \<noteq> None"
    using pos by simp
  from minibatch_loop_rows [OF rows run _ _ this]
  have rect: "\<forall>row \<in> set (policy_losses_list loss'). length row = 2"
    "\<forall>row \<in> set (fetch_result_list loss'). length row = 2" and some: "pl' \<noteq> None"
    by (simp_all add: empty_loss_def)
  from np_mean0_rows_rectangular [OF ne(1) rect(1)]
  obtain ps where ps: "np_mean0_rows nx (policy_losses_list loss') = Inr (Array ps)" "length ps = 2"
    by blast
  from np_mean0_rows_rectangular [OF ne(2) rect(2)]
  obtain fs where fs: "np_mean0_rows nx (fetch_result_list loss') = Inr (Array fs)" "length fs = 2"
    by blast
  have st: "(net', pl') = run_minibatches step (net, pl) (minibatches M batch)"
    unfolding minibatches_def by (rule minibatch_loop_run [OF run])
  have "train_epoch nx step M batch (net, pl)
        = ((net', pl'),
           Inr \<lparr>total_loss_mean = np_mean0_scalars nx (total_loss_list loss'),
                policy_losses_mean = Array ps,
                unclipped_grads_mean = np_mean0_scalars nx (unclipped_grads_list loss'),
                fetch_result_mean = Array fs\<rparr>)"
    using assms(1) run ps fs by (simp add: train_epoch_def Let_def)
  moreover obtain l where "pl' = Some l"
    using some by auto
  ultimately show ?thesis
    using fs(2) st by (metis loss_means.select_convs(4) snd_conv)
qed

lemma train_epoch_completes:
  assumes "0 < M" "M \<le> length batch"
    and rows: "\<forall>n mb. length (policy_losses (snd (step n mb))) = 2 \<and>
                  length (fetch_result (snd (step n mb))) = 2"
  shows "\<exists>means. snd (train_epoch nx step M batch (net, pl)) = Inr means"
  using train_epoch_returns [OF assms, where nx = nx and net = net and pl = pl] by auto

lemma epochs_loop_returns:
  assumes "0 < M" "M \<le> length batch"
    and rows: "\<forall>n mb. length (policy_losses (snd (step n mb))) = 2 \<and>
                  length (fetch_result (snd (step n mb))) = 2"
    and sh: "\<forall>j b. length (shuffle j b) = length b"
    and start: "js = [] \<longrightarrow>
                  (\<exists>means fs l. loss = Some means \<and> fetch_result_mean means = Array fs \<and>
                                length fs = 2 \<and> pl = Some l)"
  shows "\<exists>batch' net' l means fs.
           run_epochs shuffle step M js (batch, net, pl) = (batch', net', Some l) \<and>
           epochs_loop nx shuffle step M js (batch, net, pl, loss)
             = ((batch', net', Some l), Inr (Some means)) \<and>
           fetch_result_mean means = Array fs \<and> length fs = 2"
  using assms(2) start
proof (induction js arbitrary: batch net pl loss)
  case Nil
  then show ?case by auto
next
  case (Cons j js)
  have len: "M \<le> length (shuffle j batch)"
    using Cons.prems(1) sh by simp
  from train_epoch_returns [OF assms(1) len rows, where nx = nx and net = net and pl = pl]
  obtain means fs l where ep:
    "train_epoch nx step M (shuffle j batch) (net, pl)
       = (run_minibatches step (net, pl) (minibatches M (shuffle j batch)), Inr means)"
    "fetch_result_mean means = Array fs" "length fs = 2"
    "snd (run_minibatches step (net, pl) (minibatches M (shuffle j batch))) = Some l"
    by blast
  obtain n1 where rm: "run_minibatches step (net, pl) (minibatches M (shuffle j batch)) = (n1, Some l)"
    using ep(4) by (cases "run_minibatches step (net, pl) (minibatches M (shuffle j batch))") simp
  have next_start: "js = [] \<longrightarrow>
       (\<exists>means' fs' l'. Some means = Some means' \<and> fetch_result_mean means' = Array fs' \<and>
                        length fs' = 2 \<and> Some l = Some l')"
    using ep(2,3) by simp
  from Cons.IH [OF len next_start, where net = n1]
  show ?case
    using ep(1) rm by (simp add: Let_def)
qed

lemma train_network_returns:
  assumes "0 < M" "M \<le> length batch"
    and rows: "\<forall>n mb. length (policy_losses (snd (step n mb))) = 2 \<and>
                  length (fetch_result (snd (step n mb))) = 2"
    and sh: "\<forall>j b. length (shuffle j b) = length b"
    and "0 < epochs"
  shows "\<exists>batch' net' l.
           run_epochs shuffle step M [0..<epochs] (batch, net, None) = (batch', net', Some l) \<and>
           train_network nx shuffle step M batch epochs net = ((batch', net'), Inr l)"
proof -
  have "[0..<epochs] = [] \<longrightarrow>
          (\<exists>means fs l. (None :: loss_means option) = Some means \<and>
                        fetch_result_mean means = Array fs \<and> length fs = 2 \<and>
                        (None :: real list option) = Some l)"
    using assms(5) by simp
  from epochs_loop_returns [OF assms(1,2) rows sh this, where nx = nx and net = net]
  obtain batch' net' l means fs where
    "run_epochs shuffle step M [0..<epochs] (batch, net, None) = (batch', net', Some l)"
    "epochs_loop nx shuffle step M [0..<epochs] (batch, net, None, None)
       = ((batch', net', Some l), Inr (Some means))"
    "fetch_result_mean means = Array fs" "length fs = 2"
    by blast
  then show ?thesis
    by (simp add: train_network_def)
qed

text \<open>
  C7, as the code has it. In an epoch of \<open>train_network\<close>, for a batch of \<open>B\<close>
  transitions and minibatches of \<open>M > 0\<close>, exactly \<open>B div M\<close> minibatches are processed,
  the \<open>i\<close>-th being the slice \<open>[i*M, (i+1)*M)\<close> of the batch in its current order;
  together they are the first \<open>M * (B div M)\<close> transitions, and the trailing \<open>B mod M\<close>
  take part in no gradient step of that epoch. When \<open>M \<le> B\<close> (and the network reports
  its two head losses and two fetches at every step) no error is raised: the epoch
  returns, and so does \<open>train_network\<close> for one or more epochs, with the network
  trained on exactly those minibatches and the losses of the last step.
\<close>

theorem minibatch_partition:
  "0 < M \<longrightarrow>
     length (minibatches M batch) = length batch div M \<and>
     (\<forall>i<length batch div M.
        minibatches M batch ! i = slice (i * M) ((i + 1) * M) batch \<and>
        length (minibatches M batch ! i) = M) \<and>
     concat (minibatches M batch) = take (M * (length batch div M)) batch \<and>
     length (drop (M * (length batch div M)) batch) = length batch mod M \<and>
     (\<exists>net' loss' pl'.
        minibatch_loop step M batch [0..<length batch div M] (net, empty_loss, pl)
          = (net', loss', pl') \<and>
        fst (train_epoch nx step M batch (net, pl)) = (net', pl') \<and>
        (net', pl') = run_minibatches step (net, pl) (minibatches M batch) \<and>
        net' = foldl (\<lambda>n mb. fst (step n mb)) net (minibatches M batch) \<and>
        length (total_loss_list loss') = length batch div M \<and>
        length (policy_losses_list loss') = length batch div M \<and>
        length (unclipped_grads_list loss') = length batch div M \<and>
        length (fetch_result_list loss') = length batch div M) \<and>
     (M \<le> length batch \<and>
      (\<forall>n mb. length (policy_losses (snd (step n mb))) = 2 \<and>
               length (fetch_result (snd (step n mb))) = 2)
        \<longrightarrow> (\<exists>means. train_epoch nx step M batch (net, pl)
                        = (run_minibatches step (net, pl) (minibatches M batch), Inr means))) \<and>
     (M \<le> length batch \<and>
      (\<forall>n mb. length (policy_losses (snd (step n mb))) = 2 \<and>
               length (fetch_result (snd (step n mb))) = 2) \<and>
      (\<forall>j b. length (shuffle j b) = length b) \<and> 0 < epochs
        \<longrightarrow> (\<exists>batch' net' losses.
               run_epochs shuffle step M [0..<epochs] (batch, net, None)
                 = (batch', net', Some losses) \<and>
               train_network nx shuffle step M batch epochs net
                 = ((batch', net'), Inr losses)))"
proof (intro impI conjI)
  assume M: "0 < M"
  show "length (minibatches M batch) = length batch div M"
    by simp
  show "\<forall>i<length batch div M.
        minibatches M batch ! i = slice (i * M) ((i + 1) * M) batch \<and>
        length (minibatches M batch ! i) = M"
    using length_minibatch [of _ batch M] by (simp add: minibatches_def)
  show "concat (minibatches M batch) = take (M * (length batch div M)) batch"
    by (rule concat_minibatches)
  show "length (drop (M * (length batch div M)) batch) = length batch mod M"
    by (rule length_remainder)
  show "\<exists>net' loss' pl'.
        minibatch_loop step M batch [0..<length batch div M] (net, empty_loss, pl)
          = (net', loss', pl') \<and>
        fst (train_epoch nx step M batch (net, pl)) = (net', pl') \<and>
        (net', pl') = run_minibatches step (net, pl) (minibatches M batch) \<and>
        net' = foldl (\<lambda>n mb. fst (step n mb)) net (minibatches M batch) \<and>
        length (total_loss_list loss') = length batch div M \<and>
        length (policy_losses_list loss') = length batch div M \<and>
        length (unclipped_grads_list loss') = length batch div M \<and>
        length (fetch_result_list loss') = length batch div M"
  proof -
    obtain net' loss' pl' where run:
      "minibatch_loop step M batch [0..<length batch div M] (net, empty_loss, pl) = (net', loss', pl')"
      by (metis prod_cases3)
    have "net' = fst (minibatch_loop step M batch [0..<length batch div M] (net, empty_loss, pl))"
      by (simp add: run)
    then have n: "net' = foldl (\<lambda>n mb. fst (step n mb)) net (minibatches M batch)"
      by (simp only: minibatch_loop_net minibatches_def)
    have r: "(net', pl') = run_minibatches step (net, pl) (minibatches M batch)"
      unfolding minibatches_def by (rule minibatch_loop_run [OF run])
    from minibatch_loop_lengths [OF run] train_epoch_run [OF M run, where nx = nx] run n r show ?thesis
      by (simp add: empty_loss_def)
  qed
  show "\<exists>means. train_epoch nx step M batch (net, pl)
                        = (run_minibatches step (net, pl) (minibatches M batch), Inr means)"
    if "M \<le> length batch \<and>
      (\<forall>n mb. length (policy_losses (snd (step n mb))) = 2 \<and>
               length (fetch_result (snd (step n mb))) = 2)"
    using train_epoch_returns [where M = M and batch = batch and step = step and nx = nx and net = net and pl = pl] M that by blast
  show "\<exists>batch' net' losses.
               run_epochs shuffle step M [0..<epochs] (batch, net, None)
                 = (batch', net', Some losses) \<and>
               train_network nx shuffle step M batch epochs net
                 = ((batch', net'), Inr losses)"
    if "M \<le> length batch \<and>
      (\<forall>n mb. length (policy_losses (snd (step n mb))) = 2 \<and>
               length (fetch_result (snd (step n mb))) = 2) \<and>
      (\<forall>j b. length (shuffle j b) = length b) \<and> 0 < epochs"
    using train_network_returns [where M = M and batch = batch and step = step and shuffle = shuffle and epochs = epochs and net = net and nx = nx] M that by blast
qed

lemma recording_step_rows:
  "\<forall>n mb. length (policy_losses (snd (recording_step n mb))) = 2 \<and>
           length (fetch_result (snd (recording_step n mb))) = 2"
  by (simp add: recording_step_def)

theorem minibatch_partition_witness:
  "((0::nat) < 2 \<and> (2::nat) \<le> length [1, 2, 3, 4, 5 :: nat] \<and>
    (\<forall>j (b :: nat list). length (rotate j b) = length b) \<and> (0::nat) < 1) \<and>
   length (minibatches 2 [1, 2, 3, 4, 5 :: nat]) = length [1, 2, 3, 4, 5 :: nat] div 2 \<and>
   minibatches 2 [1, 2, 3, 4, 5 :: nat] = [[1, 2], [3, 4]] \<and>
   concat (minibatches 2 [1, 2, 3, 4, 5 :: nat])
     = take (2 * (length [1, 2, 3, 4, 5 :: nat] div 2)) [1, 2, 3, 4, 5] \<and>
   length (drop (2 * (length [1, 2, 3, 4, 5 :: nat] div 2)) [1, 2, 3, 4, 5 :: nat])
     = length [1, 2, 3, 4, 5 :: nat] mod 2 \<and>
   fst (fst (train_epoch exact_numerics recording_step 2 [1, 2, 3, 4, 5] ([], None)))
     = [[1, 2], [3, 4]] \<and>
   (\<exists>means. snd (train_epoch exact_numerics recording_step 2 [1, 2, 3, 4, 5] ([], None))
             = Inr means) \<and>
   train_network exact_numerics rotate recording_step 2 [1, 2, 3, 4, 5] 1 []
     = (([1, 2, 3, 4, 5], [[1, 2], [3, 4]]), Inr [2, 0])"
proof -
  let ?batch = "[1, 2, 3, 4, 5 :: nat]"
  have M: "(0::nat) < 2"
    by simp
  have rows: "(2::nat) \<le> length ?batch \<and>
      (\<forall>n mb. length (policy_losses (snd (recording_step n mb))) = 2 \<and>
               length (fetch_result (snd (recording_step n mb))) = 2)"
    using recording_step_rows by simp
  have all: "(2::nat) \<le> length ?batch \<and>
      (\<forall>n mb. length (policy_losses (snd (recording_step n mb))) = 2 \<and>
               length (fetch_result (snd (recording_step n mb))) = 2) \<and>
      (\<forall>j (b :: nat list). length (rotate j b) = length b) \<and> (0::nat) < 1"
    using recording_step_rows by simp
  have mbs: "minibatches 2 ?batch = [[1, 2], [3, 4]]"
    by code_simp
  have fold: "foldl (\<lambda>n mb. fst (recording_step n mb)) [] [[1, 2], [3, 4 :: nat]] = [[1, 2], [3, 4]]"
    by (simp add: recording_step_def)
  have rm: "run_minibatches recording_step ([], None) [[1, 2], [3, 4 :: nat]]
            = ([[1, 2], [3, 4]], Some [2, 0])"
    by (simp add: run_minibatches_def recording_step_def)
  have u: "[0..<1] = [0::nat]"
    by simp
  have re: "run_epochs rotate recording_step 2 [0..<1] (?batch, [], None)
            = (?batch, [[1, 2], [3, 4]], Some [2, 0])"
    unfolding u by (simp only: run_epochs.simps rotate0 id_apply mbs rm)
  note inst = minibatch_partition
    [where M = 2 and batch = ?batch and step = recording_step and net = "[]" and pl = None
       and nx = exact_numerics and shuffle = rotate and epochs = 1]
  from inst M have facts:
    "length (minibatches 2 ?batch) = length ?batch div 2"
    "concat (minibatches 2 ?batch) = take (2 * (length ?batch div 2)) ?batch"
    "length (drop (2 * (length ?batch div 2)) ?batch) = length ?batch mod 2"
    by blast+
  from inst M obtain net' pl' where
    "fst (train_epoch exact_numerics recording_step 2 ?batch ([], None)) = (net', pl')"
    "net' = foldl (\<lambda>n mb. fst (recording_step n mb)) [] (minibatches 2 ?batch)"
    by blast
  then have ep: "fst (fst (train_epoch exact_numerics recording_step 2 ?batch ([], None)))
                 = [[1, 2], [3, 4]]"
    by (simp only: mbs fold fst_conv)
  from inst M rows
  have "\<exists>means. train_epoch exact_numerics recording_step 2 ?batch ([], None)
                 = (run_minibatches recording_step ([], None) (minibatches 2 ?batch), Inr means)"
    by blast
  then have ok: "\<exists>means. snd (train_epoch exact_numerics recording_step 2 ?batch ([], None))
                          = Inr means"
    by auto
  from inst M all obtain batch' net'' losses where
    "run_epochs rotate recording_step 2 [0..<1] (?batch, [], None) = (batch', net'', Some losses)"
    "train_network exact_numerics rotate recording_step 2 ?batch 1 [] = ((batch', net''), Inr losses)"
    by blast
  then have tn: "train_network exact_numerics rotate recording_step 2 ?batch 1 []
                 = ((?batch, [[1, 2], [3, 4]]), Inr [2, 0])"
    by (simp only: re prod.inject option.inject)
  from M all facts mbs ep ok tn show ?thesis
    by blast
qed

lemma train_epoch_small_batch:
  assumes "length batch < M"
  shows "train_epoch nx step M batch (net, pl) = ((net, pl), Inl IndexError)"
  using assms by (simp add: train_epoch_def Let_def np_mean0_rows_def empty_loss_def)

text \<open>
  C7 as stated fails where the batch is smaller than one minibatch: with one transition
  and minibatches of two, the one transition is left out of the gradient updates and the
  epoch, hence the call, raises an index error.
\<close>

theorem minibatch_partition_small_batch_counterexample:
  "minibatches 2 [7 :: nat] = [] \<and>
   snd (train_epoch exact_numerics recording_step 2 [7] ([], None)) = Inl IndexError \<and>
   snd (train_network exact_numerics rotate recording_step 2 [7] 1 []) = Inl IndexError"
proof -
  have "length (rotate 0 [7 :: nat]) < 2"
    by simp
  note ep = train_epoch_small_batch [OF this, of exact_numerics recording_step "[]" None]
  have "[0..<1] = [0::nat]"
    by simp
  then have "snd (train_network exact_numerics rotate recording_step 2 [7] 1 []) = Inl IndexError"
    using ep by (simp add: train_network_def)
  moreover have "snd (train_epoch exact_numerics recording_step 2 [7] ([], None)) = Inl IndexError"
    using ep by simp
  moreover have "minibatches 2 [7 :: nat] = []"
    by (simp add: minibatches_def)
  ultimately show ?thesis
    by blast
qed

section \<open>Clipped PPO: a batch smaller than one minibatch\<close>

text \<open>
  C9. \<open>train_network\<close> needs a batch of at least one minibatch: with fewer transitions
  (and at least one epoch) the minibatch loop of the first epoch runs no gradient step,
  the lists of losses stay empty, their means are 0-d values, and reading element \<open>0\<close>
  of the mean policy losses and of the mean fetch results is an index error, so the call
  raises instead of returning.
\<close>

theorem train_network_small_batch_faults:
  "length batch < M \<and> 0 < epochs \<and> (\<forall>j b. length (shuffle j b) = length b) \<longrightarrow>
     minibatch_loop step M (shuffle 0 batch) [0..<length (shuffle 0 batch) div M]
         (net, empty_loss, None) = (net, empty_loss, None) \<and>
     np_mean0_rows nx (policy_losses_list empty_loss) = Inr (Scalar NaN) \<and>
     np_mean0_rows nx (fetch_result_list empty_loss) = Inr (Scalar NaN) \<and>
     getitem (Scalar NaN) 0 = Inl IndexError \<and>
     train_epoch nx step M (shuffle 0 batch) (net, None) = ((net, None), Inl IndexError) \<and>
     train_network nx shuffle step M batch epochs net = ((shuffle 0 batch, net), Inl IndexError)"
proof (intro impI)
  assume a: "length batch < M \<and> 0 < epochs \<and> (\<forall>j b. length (shuffle j b) = length b)"
  then have small: "length (shuffle 0 batch) < M"
    by simp
  then have zero: "length (shuffle 0 batch) div M = 0"
    by simp
  have loop: "minibatch_loop step M (shuffle 0 batch) [0..<length (shuffle 0 batch) div M]
         (net, empty_loss, None) = (net, empty_loss, None)"
    by (simp add: zero)
  have means: "np_mean0_rows nx (policy_losses_list empty_loss) = Inr (Scalar NaN)"
    "np_mean0_rows nx (fetch_result_list empty_loss) = Inr (Scalar NaN)"
    by (simp_all add: np_mean0_rows_def empty_loss_def)
  have epoch: "train_epoch nx step M (shuffle 0 batch) (net, None) = ((net, None), Inl IndexError)"
    by (rule train_epoch_small_batch [OF small])
  from a obtain e where e: "epochs = Suc e"
    by (cases epochs) simp_all
  have "[0..<epochs] = 0 # [1..<epochs]"
    by (simp add: e upt_conv_Cons)
  then have "train_network nx shuffle step M batch epochs net = ((shuffle 0 batch, net), Inl IndexError)"
    by (simp add: train_network_def Let_def epoch)
  with loop means epoch show
    "minibatch_loop step M (shuffle 0 batch) [0..<length (shuffle 0 batch) div M]
         (net, empty_loss, None) = (net, empty_loss, None) \<and>
     np_mean0_rows nx (policy_losses_list empty_loss) = Inr (Scalar NaN) \<and>
     np_mean0_rows nx (fetch_result_list empty_loss) = Inr (Scalar NaN) \<and>
     getitem (Scalar NaN) 0 = Inl IndexError \<and>
     train_epoch nx step M (shuffle 0 batch) (net, None) = ((net, None), Inl IndexError) \<and>
     train_network nx shuffle step M batch epochs net = ((shuffle 0 batch, net), Inl IndexError)"
    by simp
qed

theorem train_network_small_batch_faults_witness:
  "(length [7 :: nat] < 2 \<and> (0::nat) < 3 \<and> (\<forall>j (b :: nat list). length (rev b) = length b)) \<and>
   train_epoch exact_numerics recording_step 2 (rev [7]) ([], None) = (([], None), Inl IndexError) \<and>
   train_network exact_numerics (\<lambda>j. rev) recording_step 2 [7] 3 [] = ((rev [7], []), Inl IndexError)"
proof -
  have h: "length [7 :: nat] < 2 \<and> (0::nat) < 3 \<and>
           (\<forall>j (b :: nat list). length ((\<lambda>j. rev) j b) = length b)"
    by simp
  from train_network_small_batch_faults
         [where batch = "[7]" and M = 2 and epochs = 3 and shuffle = "\<lambda>j. rev"
            and step = recording_step and net = "[]" and nx = exact_numerics] h
  show ?thesis
    by simp
qed

section \<open>Clipped PPO: standardization of the advantages\<close>

subsection \<open>In exact arithmetic\<close>

lemma sum_list_map_divide:
  fixes f :: "'a \<Rightarrow> real"
  shows "sum_list (map (\<lambda>x. f x / c) xs) = sum_list (map f xs) / c"
  by (induction xs) (simp_all add: add_divide_distrib)

lemma sum_list_map_minus_const:
  fixes f :: "'a \<Rightarrow> real"
  shows "sum_list (map (\<lambda>x. f x - c) xs) = sum_list (map f xs) - real (length xs) * c"
  by (induction xs) (simp_all add: algebra_simps)

lemma sum_list_squares_nonneg:
  fixes f :: "'a \<Rightarrow> real"
  shows "0 \<le> sum_list (map (\<lambda>x. (f x)\<^sup>2) xs)"
  by (induction xs) simp_all

lemma sum_list_squares_pos:
  fixes f :: "'a \<Rightarrow> real"
  assumes "a \<in> set xs" "f a \<noteq> 0"
  shows "0 < sum_list (map (\<lambda>x. (f x)\<^sup>2) xs)"
  using assms
proof (induction xs)
  case Nil
  then show ?case by simp
next
  case (Cons x xs)
  show ?case
  proof (cases "f x = 0")
    case True
    with Cons show ?thesis by auto
  next
    case False
    then have "0 < (f x)\<^sup>2" by simp
    with sum_list_squares_nonneg [of f xs] show ?thesis by (simp add: add_pos_nonneg)
  qed
qed

lemma deviations_sum_zero:
  assumes "xs \<noteq> []"
  shows "sum_list (map (\<lambda>a. a - exact_mean xs) xs) = 0"
  using assms sum_list_map_minus_const [of "\<lambda>a. a" "exact_mean xs" xs]
  by (simp add: exact_mean_def)

lemma constant_array_mean:
  assumes "constant_array xs" "xs \<noteq> []" "a \<in> set xs"
  shows "a = exact_mean xs"
proof -
  have all: "\<forall>b \<in> set xs. b = hd xs"
    using assms(1) by (simp add: constant_array_def)
  then have "map (\<lambda>b. b) xs = map (\<lambda>b. hd xs) xs"
    by (intro map_cong) simp_all
  then have "xs = replicate (length xs) (hd xs)"
    by (simp add: map_replicate_const)
  then have "sum_list xs = real (length xs) * hd xs"
    by (metis sum_list_replicate)
  then have "exact_mean xs = hd xs"
    using assms(2) by (simp add: exact_mean_def)
  with all assms(3) show ?thesis by simp
qed

lemma exact_std_constant:
  assumes "constant_array xs" "xs \<noteq> []"
  shows "exact_std xs = 0"
proof -
  have "map (\<lambda>x. (x - exact_mean xs)\<^sup>2) xs = map (\<lambda>x. 0) xs"
    using constant_array_mean [OF assms] by (intro map_cong) simp_all
  then have "exact_std xs = sqrt (exact_mean (map (\<lambda>x. 0) xs))"
    by (simp only: exact_std_def)
  then show ?thesis
    by (simp add: exact_mean_def)
qed

lemma exact_std_pos:
  assumes "\<not> constant_array xs"
  shows "0 < exact_std xs"
proof -
  from assms obtain a where a: "a \<in> set xs" "a \<noteq> hd xs"
    by (auto simp: constant_array_def)
  then have ne: "xs \<noteq> []" by auto
  then have h: "hd xs \<in> set xs" by simp
  have "\<exists>b \<in> set xs. b - exact_mean xs \<noteq> 0"
  proof (cases "a = exact_mean xs")
    case True
    with a(2) have "hd xs - exact_mean xs \<noteq> 0" by simp
    with h show ?thesis by blast
  next
    case False
    then have "a - exact_mean xs \<noteq> 0" by simp
    with a(1) show ?thesis by blast
  qed
  then obtain b where "b \<in> set xs" "b - exact_mean xs \<noteq> 0"
    by blast
  from sum_list_squares_pos [of b xs "\<lambda>x. x - exact_mean xs", OF this]
  have "0 < exact_mean (map (\<lambda>x. (x - exact_mean xs)\<^sup>2) xs)"
    using ne by (simp add: exact_mean_def)
  then show ?thesis
    by (simp add: exact_std_def)
qed

lemma standardized_moments:
  assumes "\<not> constant_array xs"
  defines "ys \<equiv> map (\<lambda>a. (a - exact_mean xs) / exact_std xs) xs"
  shows "exact_mean ys = 0" "exact_std ys = 1"
proof -
  define m where "m = exact_mean xs"
  define d where "d = exact_std xs"
  have ys: "ys = map (\<lambda>a. (a - m) / d) xs"
    by (simp add: ys_def m_def d_def)
  from assms(1) have ne: "xs \<noteq> []"
    by (auto simp: constant_array_def)
  have pos: "0 < d"
    unfolding d_def by (rule exact_std_pos [OF assms(1)])
  have "sum_list ys = sum_list (map (\<lambda>a. a - m) xs) / d"
    unfolding ys by (simp add: comp_def sum_list_map_divide)
  then have s0: "sum_list ys = 0"
    using deviations_sum_zero [OF ne] by (simp add: m_def)
  then show m0: "exact_mean ys = 0"
    by (simp add: exact_mean_def)
  have "0 \<le> exact_mean (map (\<lambda>x. (x - m)\<^sup>2) xs)"
    using sum_list_squares_nonneg [of "\<lambda>x. x - m" xs] by (simp add: exact_mean_def)
  then have var: "d\<^sup>2 = exact_mean (map (\<lambda>x. (x - m)\<^sup>2) xs)"
    by (simp add: d_def exact_std_def m_def)
  have "map (\<lambda>y. (y - exact_mean ys)\<^sup>2) ys = map (\<lambda>y. y\<^sup>2) ys"
    by (simp only: m0 diff_zero)
  also have "\<dots> = map (\<lambda>a. (a - m)\<^sup>2 / d\<^sup>2) xs"
    unfolding ys by (simp add: power_divide)
  finally have "exact_mean (map (\<lambda>y. (y - exact_mean ys)\<^sup>2) ys)
        = exact_mean (map (\<lambda>a. (a - m)\<^sup>2 / d\<^sup>2) xs)"
    by (simp only:)
  also have "\<dots> = sum_list (map (\<lambda>a. (a - m)\<^sup>2) xs) / d\<^sup>2 / real (length xs)"
    unfolding exact_mean_def by (simp only: sum_list_map_divide length_map)
  also have "\<dots> = exact_mean (map (\<lambda>x. (x - m)\<^sup>2) xs) / d\<^sup>2"
    by (simp add: exact_mean_def)
  also have "\<dots> = 1"
    using pos by (simp add: var [symmetric])
  finally show "exact_std ys = 1"
    by (simp add: exact_std_def)
qed

lemma standardize_exact:
  assumes "xs \<noteq> []" "exact_std xs \<noteq> 0"
  shows "standardize exact_numerics xs
         = map (\<lambda>a. Finite ((a - exact_mean xs) / exact_std xs)) xs"
  using assms by (simp add: standardize_def exact_numerics_def)

text \<open>Without rounding, an array that is not constant is mapped to one of mean \<open>0\<close>
  and population standard deviation \<open>1\<close>.\<close>

lemma standardize_exact_moments:
  assumes "\<not> constant_array xs"
  shows "\<exists>ys. standardize exact_numerics xs = map Finite ys \<and> length ys = length xs \<and>
              exact_mean ys = 0 \<and> exact_std ys = 1"
proof -
  define ys where "ys = map (\<lambda>a. (a - exact_mean xs) / exact_std xs) xs"
  from assms have ne: "xs \<noteq> []"
    by (auto simp: constant_array_def)
  have "exact_std xs \<noteq> 0"
    using exact_std_pos [OF assms] by simp
  from standardize_exact [OF ne this] have "standardize exact_numerics xs = map Finite ys"
    by (simp add: ys_def comp_def)
  moreover have "length ys = length xs"
    by (simp add: ys_def)
  moreover have "exact_mean ys = 0" "exact_std ys = 1"
    unfolding ys_def by (rule standardized_moments [OF assms])+
  ultimately show ?thesis
    by blast
qed

subsection \<open>In float arithmetic\<close>

lemma np_divide_by_zero: "non_finite (np_divide nx y (Finite 0))"
  by (cases y) simp_all

lemma np_subtract_self: "np_subtract nx (Finite a) (Finite a) = Finite 0"
  by simp

lemma exact_moments_ones: "exact_mean [1, 1] = 1" "exact_std [1, 1] = 0"
proof -
  show m: "exact_mean [1, 1] = 1"
    by (simp add: exact_mean_def)
  have "exact_std [1, 1] = sqrt 0"
    unfolding exact_std_def m by (simp add: exact_mean_def)
  then show "exact_std [1, 1] = 0"
    by simp
qed

lemma standardize_ones: "standardize exact_numerics [1, 1] = [NaN, NaN]"
  by (simp add: standardize_def exact_numerics_def exact_moments_ones)

text \<open>
  C4, as the code has it. The standardization step of \<open>fill_advantages\<close> keeps the
  length of the array and puts at every index the float quotient of the entry minus the
  mean by the standard deviation. The division has no guard and no epsilon floor:
  whenever the computed deviation is zero, every entry of the result is \<open>nan\<close> or an
  infinity, and it is \<open>nan\<close> wherever the entry equals the computed mean.
\<close>

theorem standardize_unguarded:
  "length (standardize nx xs) = length xs \<and>
   (i < length xs \<longrightarrow>
      standardize nx xs ! i
        = np_divide nx (np_subtract nx (Finite (xs ! i)) (np_mean nx xs)) (np_std nx xs)) \<and>
   (np_std nx xs = Finite 0 \<longrightarrow> (\<forall>v \<in> set (standardize nx xs). non_finite v)) \<and>
   (np_std nx xs = Finite 0 \<and> np_mean nx xs = Finite m \<and> i < length xs \<and> xs ! i = m \<longrightarrow>
      standardize nx xs ! i = NaN)"
proof (intro conjI impI)
  show "length (standardize nx xs) = length xs"
    by (simp add: standardize_def)
  show "standardize nx xs ! i
        = np_divide nx (np_subtract nx (Finite (xs ! i)) (np_mean nx xs)) (np_std nx xs)"
    if "i < length xs" using that by (simp add: standardize_def)
  show "\<forall>v \<in> set (standardize nx xs). non_finite v" if "np_std nx xs = Finite 0"
    using that by (simp add: standardize_def np_divide_by_zero)
  show "standardize nx xs ! i = NaN"
    if "np_std nx xs = Finite 0 \<and> np_mean nx xs = Finite m \<and> i < length xs \<and> xs ! i = m"
    using that by (simp add: standardize_def)
qed

theorem standardize_unguarded_witness:
  "(np_std exact_numerics [1, 1] = Finite 0 \<and> np_mean exact_numerics [1, 1] = Finite 1 \<and>
    (0::nat) < length [1, 1 :: real] \<and> [1, 1 :: real] ! 0 = 1) \<and>
   length (standardize exact_numerics [1, 1]) = length [1, 1 :: real] \<and>
   non_finite (standardize exact_numerics [1, 1] ! 0) \<and>
   standardize exact_numerics [1, 1] ! 0 = NaN"
proof -
  have h: "np_std exact_numerics [1, 1] = Finite 0 \<and> np_mean exact_numerics [1, 1] = Finite 1 \<and>
    (0::nat) < length [1, 1 :: real] \<and> [1, 1 :: real] ! 0 = 1"
    by (simp add: exact_numerics_def exact_moments_ones)
  note inst = standardize_unguarded [of exact_numerics "[1, 1]" 0 1]
  from inst have l: "length (standardize exact_numerics [1, 1]) = length [1, 1 :: real]"
    by blast
  from inst h have n: "standardize exact_numerics [1, 1] ! 0 = NaN"
    by blast
  from inst h have "\<forall>v \<in> set (standardize exact_numerics [1, 1]). non_finite v"
    by blast
  moreover have "standardize exact_numerics [1, 1] ! 0 \<in> set (standardize exact_numerics [1, 1])"
    using l by (intro nth_mem) simp
  ultimately have "non_finite (standardize exact_numerics [1, 1] ! 0)"
    by blast
  with h l n show ?thesis
    by blast
qed

text \<open>
  C4 as stated fails on the constant array \<open>[1, 1]\<close>: its mean \<open>1\<close> and its deviation
  \<open>0\<close> are computed without rounding, no guard stands before the division, and both
  entries become \<open>nan\<close>; so do the advantages of a batch of two identical one-step
  episodes.
\<close>

theorem standardize_constant_counterexample:
  "constant_array [1, 1] \<and> standardize exact_numerics [1, 1] = [NaN, NaN] \<and>
   map_sum id snd
     (fill_advantages exact_numerics (demo_agent GAE True)
        [demo_transition 0 1 True, demo_transition 0 1 True])
   = Inr [NaN, NaN]"
proof -
  have raw: "raw_advantages (demo_agent GAE True)
     [demo_transition 0 1 True, demo_transition 0 1 True] = Inr ([1, 1], [1, 1])"
    by (simp add: raw_advantages_def demo_agent_def demo_transition_def squeeze_def
          enumerate_from0_def slice_def get_general_advantage_estimation_values_def
          np_binop_def discount_def lfilter_def Let_def upt_conv_Cons)
  have c: "constant_array [1, 1]"
    by (simp add: constant_array_def)
  have "map_sum id snd
     (fill_advantages exact_numerics (demo_agent GAE True)
        [demo_transition 0 1 True, demo_transition 0 1 True])
   = Inr [NaN, NaN]"
    unfolding fill_advantages_def raw by (simp add: standardize_ones)
  with c standardize_ones show ?thesis
    by simp
qed

section \<open>Clipped PPO: the estimation windows of fill_advantages\<close>

lemma slice_middle:
  "slice (length pre) (length pre + length mid) (pre @ mid @ post) = mid"
  by (simp add: slice_def)

lemma window_estimates_run:
  "get_general_advantage_estimation_values (algorithm_parameters ag)
     (map reward w) (map (value_head ag) (map state w) @ [0]) = Inr (window_estimates ag w)"
proof -
  have "length (map (value_head ag) (map state w) @ [0]) = Suc (length (map reward w))"
    by simp
  from gae_values_shaped [OF this] show ?thesis
    by (simp add: window_estimates_def)
qed

lemma window_estimates_lengths:
  "length (fst (window_estimates ag w)) = length w"
  "length (snd (window_estimates ag w)) = length w"
proof -
  have len: "length (map (value_head ag) (map state w) @ [0]) = Suc (length (map reward w))"
    by simp
  have "window_estimates ag w =
     (discount (td_residuals (ap_discount (algorithm_parameters ag)) (map reward w)
                 (map (value_head ag) (map state w) @ [0]))
        (ap_discount (algorithm_parameters ag) * gae_lambda (algorithm_parameters ag)),
      if estimate_state_value_using_gae (algorithm_parameters ag)
      then map2 (+) (discount (td_residuals (ap_discount (algorithm_parameters ag)) (map reward w)
                                 (map (value_head ag) (map state w) @ [0]))
                        (ap_discount (algorithm_parameters ag) * gae_lambda (algorithm_parameters ag)))
                    (butlast (map (value_head ag) (map state w) @ [0]))
      else butlast (discount (map reward w @ [last (map (value_head ag) (map state w) @ [0])])
                      (ap_discount (algorithm_parameters ag))))"
    using window_estimates_run [of ag w] unfolding gae_values_shaped [OF len] by simp
  then show "length (fst (window_estimates ag w)) = length w"
    "length (snd (window_estimates ag w)) = length w"
    by simp_all
qed

lemma rollouts_loop_windows:
  assumes "batch = pre @ acc @ ts"
  shows "\<exists>s'. rollouts_loop (algorithm_parameters ag) (Array (map (value_head ag) (map state batch)))
           (map reward batch)
           (zip [length pre + length acc..<length batch] (map game_over ts))
           (length pre, A, T)
         = Inr (s', A @ concat (map (\<lambda>w. fst (window_estimates ag w)) (episode_windows acc ts)),
                    T @ concat (map (\<lambda>w. snd (window_estimates ag w)) (episode_windows acc ts)))"
  using assms
proof (induction ts arbitrary: pre acc A T)
  case Nil
  then show ?case by simp
next
  case (Cons t ts)
  let ?k = "length pre + length acc"
  have lt: "?k < length batch"
    using Cons.prems by simp
  have z: "zip [?k..<length batch] (map game_over (t # ts))
           = (?k, game_over t) # zip [Suc ?k..<length batch] (map game_over ts)"
    using lt by (simp add: upt_conv_Cons)
  show ?case
  proof (cases "game_over t")
    case True
    have b: "batch = pre @ (acc @ [t]) @ ts"
      using Cons.prems by simp
    have sl: "\<And>f. slice (length pre) (?k + 1) (map f batch) = map f (acc @ [t])"
    proof -
      fix f :: "'a transition \<Rightarrow> 'b"
      have "slice (length (map f pre)) (length (map f pre) + length (map f (acc @ [t])))
              (map f pre @ map f (acc @ [t]) @ map f ts) = map f (acc @ [t])"
        by (rule slice_middle)
      then show "slice (length pre) (?k + 1) (map f batch) = map f (acc @ [t])"
        by (simp add: b)
    qed
    have sv: "slice (length pre) (?k + 1) (map (value_head ag) (map state batch))
              = map (value_head ag) (map state (acc @ [t]))"
      using sl [of "\<lambda>t. value_head ag (state t)"] by (simp add: comp_def)
    have b': "batch = (pre @ acc @ [t]) @ [] @ ts"
      using Cons.prems by simp
    from Cons.IH [OF b', of "A @ fst (window_estimates ag (acc @ [t]))"
                          "T @ snd (window_estimates ag (acc @ [t]))"]
    obtain s' where
      "rollouts_loop (algorithm_parameters ag) (Array (map (value_head ag) (map state batch)))
           (map reward batch) (zip [Suc ?k..<length batch] (map game_over ts))
           (Suc ?k, A @ fst (window_estimates ag (acc @ [t])),
            T @ snd (window_estimates ag (acc @ [t])))
         = Inr (s', (A @ fst (window_estimates ag (acc @ [t])))
                      @ concat (map (\<lambda>w. fst (window_estimates ag w)) (episode_windows [] ts)),
                    (T @ snd (window_estimates ag (acc @ [t])))
                      @ concat (map (\<lambda>w. snd (window_estimates ag w)) (episode_windows [] ts)))"
      by auto
    then show ?thesis
      unfolding z using True sv sl [of reward] window_estimates_run [of ag "acc @ [t]"]
      by (cases "window_estimates ag (acc @ [t])") (auto simp del: map_append)
  next
    case False
    have b: "batch = pre @ (acc @ [t]) @ ts"
      using Cons.prems by simp
    from Cons.IH [OF b, of A T] show ?thesis
      unfolding z using False by simp
  qed
qed

lemma episode_windows_complete:
  assumes "\<forall>t \<in> set acc. \<not> game_over t"
  shows "\<forall>w \<in> set (episode_windows acc ts). complete_episode w"
  using assms
proof (induction ts arbitrary: acc)
  case Nil
  show ?case by simp
next
  case (Cons t ts)
  show ?case
  proof (cases "game_over t")
    case True
    have "complete_episode (acc @ [t])"
      using True Cons.prems by (simp add: complete_episode_def)
    moreover have "\<forall>w \<in> set (episode_windows [] ts). complete_episode w"
      by (rule Cons.IH) simp
    ultimately show ?thesis
      using True by simp
  next
    case False
    have "\<forall>w \<in> set (episode_windows (acc @ [t]) ts). complete_episode w"
      by (rule Cons.IH) (use False Cons.prems in auto)
    then show ?thesis
      using False by simp
  qed
qed

lemma episode_windows_cover:
  assumes "\<forall>t \<in> set acc. \<not> game_over t"
  shows "\<exists>rest. acc @ ts = concat (episode_windows acc ts) @ rest \<and>
                (\<forall>t \<in> set rest. \<not> game_over t)"
  using assms
proof (induction ts arbitrary: acc)
  case Nil
  then show ?case by simp
next
  case (Cons t ts)
  show ?case
  proof (cases "game_over t")
    case True
    have "\<exists>rest. [] @ ts = concat (episode_windows [] ts) @ rest \<and>
                (\<forall>t \<in> set rest. \<not> game_over t)"
      by (rule Cons.IH) simp
    then show ?thesis
      using True by auto
  next
    case False
    have "\<exists>rest. (acc @ [t]) @ ts = concat (episode_windows (acc @ [t]) ts) @ rest \<and>
                (\<forall>t \<in> set rest. \<not> game_over t)"
      by (rule Cons.IH) (use False Cons.prems in auto)
    then show ?thesis
      using False by auto
  qed
qed

lemma episode_windows_prefix:
  "take (length (concat (episode_windows [] batch))) batch = concat (episode_windows [] batch) \<and>
   (\<forall>t \<in> set (drop (length (concat (episode_windows [] batch))) batch). \<not> game_over t)"
proof -
  from episode_windows_cover [of "[]" batch]
  obtain rest where r: "batch = concat (episode_windows [] batch) @ rest"
    "\<forall>t \<in> set rest. \<not> game_over t"
    by auto
  have "take (length (concat (episode_windows [] batch))) (concat (episode_windows [] batch) @ rest)
        = concat (episode_windows [] batch)"
    by simp
  moreover have
    "drop (length (concat (episode_windows [] batch))) (concat (episode_windows [] batch) @ rest)
        = rest"
    by simp
  ultimately show ?thesis
    using r by metis
qed

lemma length_concat_estimates:
  "length (concat (map (\<lambda>w. fst (window_estimates ag w)) ws)) = length (concat ws)"
  "length (concat (map (\<lambda>w. snd (window_estimates ag w)) ws)) = length (concat ws)"
  by (induction ws) (simp_all add: window_estimates_lengths)

lemma raw_advantages_gae:
  assumes "policy_gradient_rescaler (algorithm_parameters ag) = GAE" "length batch \<noteq> 1"
  shows "raw_advantages ag batch
         = Inr (concat (map (\<lambda>w. fst (window_estimates ag w)) (episode_windows [] batch)),
                concat (map (\<lambda>w. snd (window_estimates ag w)) (episode_windows [] batch)))"
proof -
  have sq: "squeeze (map (value_head ag) (map state batch))
            = Array (map (value_head ag) (map state batch))"
    using assms(2) by (cases batch; cases "tl batch") (simp_all add: squeeze_def)
  have "batch = [] @ [] @ batch"
    by simp
  from rollouts_loop_windows [OF this, of ag "[]" "[]"]
  obtain s' where
    "rollouts_loop (algorithm_parameters ag) (Array (map (value_head ag) (map state batch)))
           (map reward batch) (zip [0..<length batch] (map game_over batch)) (0, [], [])
         = Inr (s', concat (map (\<lambda>w. fst (window_estimates ag w)) (episode_windows [] batch)),
                    concat (map (\<lambda>w. snd (window_estimates ag w)) (episode_windows [] batch)))"
    by auto
  then show ?thesis
    using assms(1) sq by (simp add: raw_advantages_def Let_def enumerate_from0_def)
qed

lemma length_write_info [simp]: "length (write_info ts as vs) = length ts"
  by (induction ts as vs rule: write_info.induct) simp_all

lemma write_info_nth_written:
  assumes "i < length ts" "i < length as" "i < length vs"
  shows "write_info ts as vs ! i
         = (ts ! i)\<lparr>info := (info (ts ! i))(''advantage'' \<mapsto> as ! i,
                                          ''gae_based_value_target'' \<mapsto> Finite (vs ! i))\<rparr>"
  using assms
proof (induction ts as vs arbitrary: i rule: write_info.induct)
  case (1 transition ts advantage as value_target vs)
  show ?case
  proof (cases i)
    case 0
    show ?thesis
      unfolding 0 by (simp only: write_info.simps nth_Cons_0)
  next
    case (Suc j)
    with "1.prems" have "j < length ts" "j < length as" "j < length vs"
      by simp_all
    from "1.IH" [OF this] show ?thesis
      unfolding Suc by (simp only: write_info.simps nth_Cons_Suc)
  qed
qed simp_all

lemma write_info_nth_kept:
  assumes "length as \<le> i \<or> length vs \<le> i"
  shows "write_info ts as vs ! i = ts ! i"
  using assms
proof (induction ts as vs arbitrary: i rule: write_info.induct)
  case (1 transition ts advantage as value_target vs)
  then show ?case by (cases i) simp_all
qed simp_all

lemma raw_advantages_gae_single:
  assumes "policy_gradient_rescaler (algorithm_parameters ag) = GAE" "\<not> game_over t"
  shows "raw_advantages ag [t] = Inr ([], [])"
  using assms by (simp add: raw_advantages_def squeeze_def enumerate_from0_def)

text \<open>
  C5, as the code has it. In \<open>GAE\<close> mode, on a batch other than a single terminal
  transition, the estimation windows of \<open>fill_advantages\<close> are the maximal contiguous runs that end at a
  transition with \<open>game_over\<close> set: each window ends at such a transition and holds no
  other, the windows in order make up the batch up to its last flag, and the estimator
  runs on each window by itself with bootstrap \<open>0\<close>. Every transition up to the last
  flag lies in exactly one window and receives an advantage and a value target; the
  transitions after the last flag lie in no window and are left as they were.
\<close>

theorem fill_advantages_windows:
  "policy_gradient_rescaler (algorithm_parameters ag) = GAE \<and>
   \<not> (length batch = 1 \<and> game_over (hd batch)) \<longrightarrow>
     (\<forall>w \<in> set (episode_windows [] batch). complete_episode w) \<and>
     take (windowed batch) batch = concat (episode_windows [] batch) \<and>
     (\<forall>t \<in> set (drop (windowed batch) batch). \<not> game_over t) \<and>
     raw_advantages ag batch
       = Inr (concat (map (\<lambda>w. fst (window_estimates ag w)) (episode_windows [] batch)),
              concat (map (\<lambda>w. snd (window_estimates ag w)) (episode_windows [] batch))) \<and>
     (\<exists>out adv.
        fill_advantages nx ag batch = Inr (out, adv) \<and>
        length out = length batch \<and> length adv = windowed batch \<and>
        (\<forall>i<length batch.
           (i < windowed batch \<longrightarrow>
              info (out ! i) ''advantage'' = Some (adv ! i) \<and>
              info (out ! i) ''gae_based_value_target'' \<noteq> None) \<and>
           (windowed batch \<le> i \<longrightarrow> out ! i = batch ! i)))"
proof (intro impI)
  assume a: "policy_gradient_rescaler (algorithm_parameters ag) = GAE \<and>
             \<not> (length batch = 1 \<and> game_over (hd batch))"
  define A where
    "A = concat (map (\<lambda>w. fst (window_estimates ag w)) (episode_windows [] batch))"
  define T where
    "T = concat (map (\<lambda>w. snd (window_estimates ag w)) (episode_windows [] batch))"
  have complete: "\<forall>w \<in> set (episode_windows [] batch). complete_episode w"
    by (rule episode_windows_complete) simp
  have prefix: "take (windowed batch) batch = concat (episode_windows [] batch)"
    "\<forall>t \<in> set (drop (windowed batch) batch). \<not> game_over t"
    using episode_windows_prefix [of batch] by (simp_all add: windowed_def)
  have raw: "raw_advantages ag batch = Inr (A, T)"
  proof (cases "length batch = 1")
    case True
    then obtain t where t: "batch = [t]"
      by (cases batch) simp_all
    with a have "\<not> game_over t"
      by simp
    with a show ?thesis
      by (simp add: A_def T_def t raw_advantages_gae_single)
  next
    case False
    with a show ?thesis
      unfolding A_def T_def by (intro raw_advantages_gae) simp_all
  qed
  have lA: "length A = windowed batch" and lT: "length T = windowed batch"
    by (simp_all add: A_def T_def length_concat_estimates windowed_def)
  have le: "windowed batch \<le> length batch"
    using arg_cong [OF prefix(1), of length] by (simp add: windowed_def)
  have run: "fill_advantages nx ag batch = Inr (write_info batch (standardize nx A) T, standardize nx A)"
    by (simp add: fill_advantages_def raw Let_def)
  have lS: "length (standardize nx A) = windowed batch"
    by (simp add: standardize_def lA)
  have written: "info (write_info batch (standardize nx A) T ! i) ''advantage''
                   = Some (standardize nx A ! i) \<and>
                 info (write_info batch (standardize nx A) T ! i) ''gae_based_value_target'' \<noteq> None"
    if "i < windowed batch" for i
  proof -
    have "i < length batch" "i < length (standardize nx A)" "i < length T"
      using that le lS lT by simp_all
    from write_info_nth_written [OF this] show ?thesis
      by simp
  qed
  have kept: "write_info batch (standardize nx A) T ! i = batch ! i" if "windowed batch \<le> i" for i
    using that lS by (intro write_info_nth_kept) simp
  have "\<exists>out adv.
        fill_advantages nx ag batch = Inr (out, adv) \<and>
        length out = length batch \<and> length adv = windowed batch \<and>
        (\<forall>i<length batch.
           (i < windowed batch \<longrightarrow>
              info (out ! i) ''advantage'' = Some (adv ! i) \<and>
              info (out ! i) ''gae_based_value_target'' \<noteq> None) \<and>
           (windowed batch \<le> i \<longrightarrow> out ! i = batch ! i))"
    using run lS written kept
    by (intro exI [of _ "write_info batch (standardize nx A) T"] exI [of _ "standardize nx A"]) simp
  with complete prefix raw show
    "(\<forall>w \<in> set (episode_windows [] batch). complete_episode w) \<and>
     take (windowed batch) batch = concat (episode_windows [] batch) \<and>
     (\<forall>t \<in> set (drop (windowed batch) batch). \<not> game_over t) \<and>
     raw_advantages ag batch
       = Inr (concat (map (\<lambda>w. fst (window_estimates ag w)) (episode_windows [] batch)),
              concat (map (\<lambda>w. snd (window_estimates ag w)) (episode_windows [] batch))) \<and>
     (\<exists>out adv.
        fill_advantages nx ag batch = Inr (out, adv) \<and>
        length out = length batch \<and> length adv = windowed batch \<and>
        (\<forall>i<length batch.
           (i < windowed batch \<longrightarrow>
              info (out ! i) ''advantage'' = Some (adv ! i) \<and>
              info (out ! i) ''gae_based_value_target'' \<noteq> None) \<and>
           (windowed batch \<le> i \<longrightarrow> out ! i = batch ! i)))"
    unfolding A_def T_def by blast
qed

lemma demo_transition_sel [simp]:
  "state (demo_transition s r g) = s" "reward (demo_transition s r g) = r"
  "next_state (demo_transition s r g) = Suc s" "game_over (demo_transition s r g) = g"
  "total_return (demo_transition s r g) = 0" "info (demo_transition s r g) = Map.empty"
  by (simp_all add: demo_transition_def)

lemma demo_fill_advantages:
  "fill_advantages exact_numerics (demo_agent GAE True)
     [demo_transition 0 1 True, demo_transition 0 3 True, demo_transition 5 7 False]
   = Inr ([(demo_transition 0 1 True)
             \<lparr>info := [''advantage'' \<mapsto> Finite (- 1), ''gae_based_value_target'' \<mapsto> Finite 1]\<rparr>,
           (demo_transition 0 3 True)
             \<lparr>info := [''advantage'' \<mapsto> Finite 1, ''gae_based_value_target'' \<mapsto> Finite 3]\<rparr>,
           demo_transition 5 7 False],
          [Finite (- 1), Finite 1])"
proof -
  have raw: "raw_advantages (demo_agent GAE True)
     [demo_transition 0 1 True, demo_transition 0 3 True, demo_transition 5 7 False]
     = Inr ([1, 3], [1, 3])"
    by (simp add: raw_advantages_def demo_agent_def demo_transition_def squeeze_def
          enumerate_from0_def slice_def get_general_advantage_estimation_values_def
          np_binop_def discount_def lfilter_def Let_def upt_conv_Cons)
  have m: "exact_mean [1, 3] = 2"
    by (simp add: exact_mean_def)
  have "exact_std [1, 3] = sqrt 1"
    unfolding exact_std_def m by (simp add: exact_mean_def)
  then have d: "exact_std [1, 3] = 1"
    by simp
  have std: "standardize exact_numerics [1, 3] = [Finite (- 1), Finite 1]"
    by (simp add: standardize_def exact_numerics_def m d)
  show ?thesis
    unfolding fill_advantages_def raw by (simp add: std demo_transition_def)
qed

theorem fill_advantages_windows_witness:
  "(policy_gradient_rescaler (algorithm_parameters (demo_agent GAE True)) = GAE \<and>
    \<not> (length [demo_transition 0 1 True, demo_transition 0 3 True, demo_transition 5 7 False] = 1 \<and>
       game_over (hd [demo_transition 0 1 True, demo_transition 0 3 True, demo_transition 5 7 False]))) \<and>
   take (windowed [demo_transition 0 1 True, demo_transition 0 3 True, demo_transition 5 7 False])
        [demo_transition 0 1 True, demo_transition 0 3 True, demo_transition 5 7 False]
     = concat (episode_windows []
        [demo_transition 0 1 True, demo_transition 0 3 True, demo_transition 5 7 False]) \<and>
   windowed [demo_transition 0 1 True, demo_transition 0 3 True, demo_transition 5 7 False] = 2 \<and>
   raw_advantages (demo_agent GAE True)
       [demo_transition 0 1 True, demo_transition 0 3 True, demo_transition 5 7 False]
     = Inr ([1, 3], [1, 3])"
proof -
  let ?ag = "demo_agent GAE True"
  let ?b = "[demo_transition 0 1 True, demo_transition 0 3 True, demo_transition 5 7 False]"
  have h: "policy_gradient_rescaler (algorithm_parameters ?ag) = GAE \<and>
           \<not> (length ?b = 1 \<and> game_over (hd ?b))"
    by (simp add: demo_agent_def)
  have w: "episode_windows [] ?b = [[demo_transition 0 1 True], [demo_transition 0 3 True]]"
    by (simp add: demo_transition_def)
  have e1: "window_estimates ?ag [demo_transition 0 1 True] = ([1], [1])"
    by (simp add: window_estimates_def demo_agent_def demo_transition_def
          get_general_advantage_estimation_values_def np_binop_def discount_def lfilter_def Let_def)
  have e2: "window_estimates ?ag [demo_transition 0 3 True] = ([3], [3])"
    by (simp add: window_estimates_def demo_agent_def demo_transition_def
          get_general_advantage_estimation_values_def np_binop_def discount_def lfilter_def Let_def)
  from fill_advantages_windows [of ?ag ?b exact_numerics] h have
    "take (windowed ?b) ?b = concat (episode_windows [] ?b)"
    "raw_advantages ?ag ?b
       = Inr (concat (map (\<lambda>w. fst (window_estimates ?ag w)) (episode_windows [] ?b)),
              concat (map (\<lambda>w. snd (window_estimates ?ag w)) (episode_windows [] ?b)))"
    by blast+
  moreover have "windowed ?b = 2"
    by (simp add: windowed_def w)
  ultimately show ?thesis
    using h by (simp add: w e1 e2)
qed

text \<open>
  C5 as stated fails on a batch that does not end with a terminal transition: the third
  transition below comes after the last \<open>game_over\<close> flag, lies in no window and
  receives no advantage.
\<close>

theorem fill_advantages_open_tail_counterexample:
  "map_sum id (written_advantages \<circ> fst)
     (fill_advantages exact_numerics (demo_agent GAE True)
        [demo_transition 0 1 True, demo_transition 0 3 True, demo_transition 5 7 False])
   = Inr [Some (Finite (- 1)), Some (Finite 1), None]"
  by (simp add: demo_fill_advantages written_advantages_def)

section \<open>Clipped PPO: episodes are estimated in isolation\<close>

lemma episode_windows_complete_prefix:
  assumes "complete_episode e"
  shows "episode_windows acc (e @ ts) = (acc @ e) # episode_windows [] ts"
  using assms
proof (induction e arbitrary: acc)
  case Nil
  then show ?case by (simp add: complete_episode_def)
next
  case (Cons t e)
  show ?case
  proof (cases "e = []")
    case True
    with Cons.prems show ?thesis
      by (simp add: complete_episode_def)
  next
    case False
    with Cons.prems have "\<not> game_over t" "complete_episode e"
      by (simp_all add: complete_episode_def)
    with Cons.IH [of "acc @ [t]"] show ?thesis
      by simp
  qed
qed

lemma episode_windows_two:
  assumes "complete_episode e1" "complete_episode e2"
  shows "episode_windows [] (e1 @ e2) = [e1, e2]"
  using episode_windows_complete_prefix [OF assms(1), of "[]" e2]
    episode_windows_complete_prefix [OF assms(2), of "[]" "[]"]
  by simp

lemma episode_windows_one:
  assumes "complete_episode e"
  shows "episode_windows [] e = [e]"
  using episode_windows_complete_prefix [OF assms, of "[]" "[]"] by simp

lemma raw_advantages_a_value:
  assumes "policy_gradient_rescaler (algorithm_parameters ag) = A_VALUE"
  shows "raw_advantages ag batch
         = Inr (map (\<lambda>t. total_return t - value_head ag (state t)) batch, [])"
proof (cases "length batch = 1")
  case True
  then obtain t where "batch = [t]"
    by (cases batch) simp_all
  then show ?thesis
    using assms by (simp add: raw_advantages_def squeeze_def)
next
  case False
  then have sq: "squeeze (map (value_head ag) (map state batch))
            = Array (map (value_head ag) (map state batch))"
    by (cases batch; cases "tl batch") (simp_all add: squeeze_def)
  have "map2 (-) (map total_return batch) (map (value_head ag) (map state batch))
        = map (\<lambda>t. total_return t - value_head ag (state t)) batch"
    by (induction batch) simp_all
  then show ?thesis
    using assms sq by (simp add: raw_advantages_def np_binop_def)
qed

text \<open>
  C6. For a batch made of two complete episodes, the advantages (and value targets) that
  \<open>fill_advantages\<close> computes over the whole batch, before standardization, are those
  of the first episode followed by those of the second, each computed on its episode
  alone with the bootstrap value \<open>0\<close>: by the estimator on the episode, which is also
  what \<open>fill_advantages\<close> computes on an episode of at least two transitions given by
  itself. Outside \<open>GAE\<close> mode the advantages are computed transition by transition
  and concatenate as well.
\<close>

theorem fill_advantages_episode_isolation:
  "complete_episode e1 \<and> complete_episode e2 \<longrightarrow>
     (policy_gradient_rescaler (algorithm_parameters ag) = GAE \<longrightarrow>
        (\<exists>a1 t1 a2 t2.
           get_general_advantage_estimation_values (algorithm_parameters ag)
             (map reward e1) (map (value_head ag) (map state e1) @ [0]) = Inr (a1, t1) \<and>
           get_general_advantage_estimation_values (algorithm_parameters ag)
             (map reward e2) (map (value_head ag) (map state e2) @ [0]) = Inr (a2, t2) \<and>
           raw_advantages ag (e1 @ e2) = Inr (a1 @ a2, t1 @ t2) \<and>
           (length e1 \<noteq> 1 \<longrightarrow> raw_advantages ag e1 = Inr (a1, t1)) \<and>
           (length e2 \<noteq> 1 \<longrightarrow> raw_advantages ag e2 = Inr (a2, t2)))) \<and>
     (policy_gradient_rescaler (algorithm_parameters ag) \<noteq> GAE \<longrightarrow>
        (\<exists>a1 t1 a2 t2.
           raw_advantages ag e1 = Inr (a1, t1) \<and> raw_advantages ag e2 = Inr (a2, t2) \<and>
           raw_advantages ag (e1 @ e2) = Inr (a1 @ a2, t1 @ t2)))"
proof (intro impI conjI)
  assume c: "complete_episode e1 \<and> complete_episode e2"
  then have c1: "complete_episode e1" and c2: "complete_episode e2"
    by simp_all
  then have ne: "e1 \<noteq> []" "e2 \<noteq> []"
    by (simp_all add: complete_episode_def)
  {
    assume g: "policy_gradient_rescaler (algorithm_parameters ag) = GAE"
    obtain a1 t1 where w1: "window_estimates ag e1 = (a1, t1)"
      by (cases "window_estimates ag e1")
    obtain a2 t2 where w2: "window_estimates ag e2 = (a2, t2)"
      by (cases "window_estimates ag e2")
    have len: "length (e1 @ e2) \<noteq> 1"
      using ne by (cases e1; cases e2) simp_all
    have both: "raw_advantages ag (e1 @ e2) = Inr (a1 @ a2, t1 @ t2)"
      using raw_advantages_gae [OF g len]
      by (simp add: episode_windows_two [OF c1 c2] w1 w2)
    have one: "raw_advantages ag e = Inr (fst (window_estimates ag e), snd (window_estimates ag e))"
      if "complete_episode e" "length e \<noteq> 1" for e
      using raw_advantages_gae [OF g that(2)] by (simp add: episode_windows_one [OF that(1)])
    have "get_general_advantage_estimation_values (algorithm_parameters ag)
             (map reward e1) (map (value_head ag) (map state e1) @ [0]) = Inr (a1, t1)"
      "get_general_advantage_estimation_values (algorithm_parameters ag)
             (map reward e2) (map (value_head ag) (map state e2) @ [0]) = Inr (a2, t2)"
      using window_estimates_run [of ag e1] window_estimates_run [of ag e2]
      by (simp_all only: w1 w2)
    with both one [OF c1] one [OF c2] show
      "\<exists>a1 t1 a2 t2.
           get_general_advantage_estimation_values (algorithm_parameters ag)
             (map reward e1) (map (value_head ag) (map state e1) @ [0]) = Inr (a1, t1) \<and>
           get_general_advantage_estimation_values (algorithm_parameters ag)
             (map reward e2) (map (value_head ag) (map state e2) @ [0]) = Inr (a2, t2) \<and>
           raw_advantages ag (e1 @ e2) = Inr (a1 @ a2, t1 @ t2) \<and>
           (length e1 \<noteq> 1 \<longrightarrow> raw_advantages ag e1 = Inr (a1, t1)) \<and>
           (length e2 \<noteq> 1 \<longrightarrow> raw_advantages ag e2 = Inr (a2, t2))"
      by (intro exI [of _ a1] exI [of _ t1] exI [of _ a2] exI [of _ t2]) (simp add: w1 w2)
  }
  {
    assume g: "policy_gradient_rescaler (algorithm_parameters ag) \<noteq> GAE"
    show "\<exists>a1 t1 a2 t2.
           raw_advantages ag e1 = Inr (a1, t1) \<and> raw_advantages ag e2 = Inr (a2, t2) \<and>
           raw_advantages ag (e1 @ e2) = Inr (a1 @ a2, t1 @ t2)"
    proof (cases "policy_gradient_rescaler (algorithm_parameters ag) = A_VALUE")
      case True
      show ?thesis
        by (simp add: raw_advantages_a_value [OF True])
    next
      case False
      with g show ?thesis
        by (simp add: raw_advantages_def)
    qed
  }
qed

theorem fill_advantages_episode_isolation_witness:
  "(complete_episode [demo_transition 0 1 True] \<and>
    complete_episode [demo_transition 1 2 False, demo_transition 2 3 True]) \<and>
   policy_gradient_rescaler (algorithm_parameters (demo_agent GAE True)) = GAE \<and>
   (\<exists>a1 t1 a2 t2.
      get_general_advantage_estimation_values (algorithm_parameters (demo_agent GAE True))
        (map reward [demo_transition 0 1 True])
        (map (value_head (demo_agent GAE True)) (map state [demo_transition 0 1 True]) @ [0])
        = Inr (a1, t1) \<and>
      raw_advantages (demo_agent GAE True)
        ([demo_transition 0 1 True] @ [demo_transition 1 2 False, demo_transition 2 3 True])
        = Inr (a1 @ a2, t1 @ t2) \<and>
      raw_advantages (demo_agent GAE True) [demo_transition 1 2 False, demo_transition 2 3 True]
        = Inr (a2, t2))"
proof -
  let ?ag = "demo_agent GAE True"
  let ?e1 = "[demo_transition 0 1 True]"
  let ?e2 = "[demo_transition 1 2 False, demo_transition 2 3 True]"
  have h: "complete_episode ?e1 \<and> complete_episode ?e2"
    by (simp add: complete_episode_def)
  have g: "policy_gradient_rescaler (algorithm_parameters ?ag) = GAE"
    by (simp add: demo_agent_def)
  have l: "length ?e2 \<noteq> 1"
    by simp
  from fill_advantages_episode_isolation [of ?e1 ?e2 ?ag] h g
  obtain a1 t1 a2 t2 where
    "get_general_advantage_estimation_values (algorithm_parameters ?ag)
        (map reward ?e1) (map (value_head ?ag) (map state ?e1) @ [0]) = Inr (a1, t1)"
    "raw_advantages ?ag (?e1 @ ?e2) = Inr (a1 @ a2, t1 @ t2)"
    "length ?e2 \<noteq> 1 \<longrightarrow> raw_advantages ?ag ?e2 = Inr (a2, t2)"
    by blast
  with h g l show ?thesis
    by blast
qed

end
